theory Spec2Isabelle
  imports Complex_Main "HOL-Library.AList" "HOL-Library.Sublist"
begin

section \<open>JavaScript strings and values\<close>

text \<open>
  The route \<^verbatim>\<open>src/app/api/analyze/route.ts\<close> and the client library that follows it in
  the same file work on JavaScript strings, numbers and plain objects. A string is
  modelled as a list of code units below 256 (\<^typ>\<open>string\<close>); a number as \<open>jsnum\<close>, whose
  finite values are the exact reals the decimal text denotes (the rounding of the
  runtime to binary doubles is not part of the model); a plain object as the association
  list of its own properties in the order of \<^verbatim>\<open>Object.keys\<close>, written with \<open>setProp\<close>
  where the key comes from the input and read with \<open>readProp\<close> where the read can reach
  \<^verbatim>\<open>Object.prototype\<close>.
\<close>

datatype jsnum = NaN | PosInfinity | NegInfinity | Num real

datatype jsval = JUndefined | JNumber jsnum | JString string

datatype js_error = TypeError | RangeError

type_synonym 'v obj = "(string \<times> 'v) list"

abbreviation LF :: char where "LF \<equiv> CHR 0x0A"
abbreviation CR :: char where "CR \<equiv> CHR 0x0D"

text \<open>\<^verbatim>\<open>WhiteSpace\<close> and \<^verbatim>\<open>LineTerminator\<close> of ECMAScript, among the code units below 256.\<close>

definition isWhiteSpace :: "char \<Rightarrow> bool" where
  "isWhiteSpace c =
     (c \<in> {CHR 0x09, CHR 0x0A, CHR 0x0B, CHR 0x0C, CHR 0x0D, CHR 0x20, CHR 0xA0})"

definition isLineTerminator :: "char \<Rightarrow> bool" where
  "isLineTerminator c = (c \<in> {LF, CR})"

definition isDigit :: "char \<Rightarrow> bool" where
  "isDigit c = (c \<in> set ''0123456789'')"

text \<open>\<^verbatim>\<open>String.prototype.trim\<close>.\<close>

definition trim :: "string \<Rightarrow> string" where
  "trim s = rev (dropWhile isWhiteSpace (rev (dropWhile isWhiteSpace s)))"

text \<open>
  \<^verbatim>\<open>s.split(sep)\<close> for a non-empty separator string: the pieces between the
  occurrences of \<open>sep\<close>, found left to right without overlap. \<open>acc\<close> is the piece being
  read. The source never splits on the empty string.
\<close>

function splitAcc :: "string \<Rightarrow> string \<Rightarrow> string \<Rightarrow> string list" where
  "splitAcc sep acc [] = [acc]"
| "splitAcc sep acc (c # cs) =
     (if sep \<noteq> [] \<and> prefix sep (c # cs)
      then acc # splitAcc sep [] (drop (length sep) (c # cs))
      else splitAcc sep (acc @ [c]) cs)"
  by pat_completeness auto
termination
  by (relation "measure (\<lambda>(sep, acc, s). length s)") auto

definition splitStr :: "string \<Rightarrow> string \<Rightarrow> string list" where
  "splitStr sep s = splitAcc sep [] s"

text \<open>\<^verbatim>\<open>xs.join(sep)\<close> on an array of strings.\<close>

fun join :: "string \<Rightarrow> string list \<Rightarrow> string" where
  "join sep [] = []"
| "join sep [x] = x"
| "join sep (x # y # ys) = x @ sep @ join sep (y # ys)"

text \<open>
  The first occurrence of \<open>pat\<close> in a string: the text before it and the text after it.
  \<^verbatim>\<open>s.includes(pat)\<close> and \<^verbatim>\<open>s.replace(pat, rep)\<close> (a string pattern replaces the
  first occurrence only) are read off it.
\<close>

fun breakOn :: "string \<Rightarrow> string \<Rightarrow> (string \<times> string) option" where
  "breakOn pat [] = (if pat = [] then Some ([], []) else None)"
| "breakOn pat (c # cs) =
     (if prefix pat (c # cs) then Some ([], drop (length pat) (c # cs))
      else map_option (\<lambda>(a, b). (c # a, b)) (breakOn pat cs))"

definition includesStr :: "string \<Rightarrow> string \<Rightarrow> bool" where
  "includesStr s pat = (breakOn pat s \<noteq> None)"

definition replaceFirst :: "string \<Rightarrow> string \<Rightarrow> string \<Rightarrow> string" where
  "replaceFirst pat rep s = (case breakOn pat s of None \<Rightarrow> s | Some (a, b) \<Rightarrow> a @ rep @ b)"

text \<open>\<^verbatim>\<open>xs[i]\<close> on an array of strings: \<^verbatim>\<open>undefined\<close> out of range.\<close>

definition elemAt :: "string list \<Rightarrow> nat \<Rightarrow> jsval" where
  "elemAt xs i = (if i < length xs then JString (xs ! i) else JUndefined)"

text \<open>\<^verbatim>\<open>o[k]\<close> on a plain object, for a key that \<^verbatim>\<open>Object.prototype\<close> does not hold (the
  source reads rows and predictions under fixed names only): \<^verbatim>\<open>undefined\<close> for a key that
  was never written.\<close>

definition getProp :: "jsval obj \<Rightarrow> string \<Rightarrow> jsval" where
  "getProp ob k = (case map_of ob k of None \<Rightarrow> JUndefined | Some v \<Rightarrow> v)"

subsection \<open>Numbers from text\<close>

text \<open>The value of one digit, read from a table; the letters are the digits of base 16.\<close>

definition digitTable :: "(char \<times> nat) list" where
  "digitTable =
     [(CHR ''0'', 0), (CHR ''1'', 1), (CHR ''2'', 2), (CHR ''3'', 3), (CHR ''4'', 4),
      (CHR ''5'', 5), (CHR ''6'', 6), (CHR ''7'', 7), (CHR ''8'', 8), (CHR ''9'', 9),
      (CHR ''a'', 10), (CHR ''A'', 10), (CHR ''b'', 11), (CHR ''B'', 11), (CHR ''c'', 12),
      (CHR ''C'', 12), (CHR ''d'', 13), (CHR ''D'', 13), (CHR ''e'', 14), (CHR ''E'', 14),
      (CHR ''f'', 15), (CHR ''F'', 15)]"

definition digitVal :: "char \<Rightarrow> nat" where
  "digitVal c = (case map_of digitTable c of None \<Rightarrow> 0 | Some d \<Rightarrow> d)"

text \<open>The value of a digit string in a base, most significant digit first.\<close>

definition digitsVal :: "nat \<Rightarrow> string \<Rightarrow> nat" where
  "digitsVal base ds = foldl (\<lambda>n c. n * base + digitVal c) 0 ds"

definition isHexDigit :: "char \<Rightarrow> bool" where
  "isHexDigit c = (c \<in> set ''0123456789abcdefABCDEF'')"

definition isOctalDigit :: "char \<Rightarrow> bool" where
  "isOctalDigit c = (c \<in> set ''01234567'')"

definition isBinaryDigit :: "char \<Rightarrow> bool" where
  "isBinaryDigit c = (c \<in> set ''01'')"

text \<open>
  \<^verbatim>\<open>ExponentPart\<close> at the head of a string, when there is one: its value and the text
  after it. Without digits after the \<^verbatim>\<open>e\<close> nothing is read.
\<close>

definition exponentPart :: "string \<Rightarrow> int \<times> string" where
  "exponentPart s =
     (case s of
        [] \<Rightarrow> (0, s)
      | c # r \<Rightarrow>
          if c \<in> set ''eE'' then
            (let neg = (case r of [] \<Rightarrow> False | d # _ \<Rightarrow> d = CHR ''-'');
                 r' = (case r of [] \<Rightarrow> r | d # t \<Rightarrow> if d \<in> set ''+-'' then t else r);
                 ds = takeWhile isDigit r'
             in if ds = [] then (0, s)
                else (if neg then - int (digitsVal 10 ds) else int (digitsVal 10 ds),
                      dropWhile isDigit r'))
          else (0, s))"

definition pow10 :: "int \<Rightarrow> real" where
  "pow10 e = (if 0 \<le> e then 10 ^ nat e else 1 / 10 ^ nat (- e))"

text \<open>
  The longest \<^verbatim>\<open>StrUnsignedDecimalLiteral\<close> at the head of a string: its value and the
  text after it.
\<close>

definition strUnsignedDecimalLiteral :: "string \<Rightarrow> (jsnum \<times> string) option" where
  "strUnsignedDecimalLiteral s =
     (if prefix ''Infinity'' s then Some (PosInfinity, drop 8 s)
      else
        let ip = takeWhile isDigit s; r = dropWhile isDigit s in
        (case r of
           [] \<Rightarrow> if ip = [] then None else Some (Num (real (digitsVal 10 ip)), [])
         | c # r1 \<Rightarrow>
             if c = CHR ''.'' then
               (let fp = takeWhile isDigit r1; r2 = dropWhile isDigit r1 in
                if ip = [] \<and> fp = [] then None
                else
                  let (e, r3) = exponentPart r2 in
                  Some (Num (real (digitsVal 10 (ip @ fp)) * pow10 (e - int (length fp))), r3))
             else if ip = [] then None
             else
               let (e, r3) = exponentPart r in
               Some (Num (real (digitsVal 10 ip) * pow10 e), r3)))"

definition negate :: "jsnum \<Rightarrow> jsnum" where
  "negate n = (case n of NaN \<Rightarrow> NaN | PosInfinity \<Rightarrow> NegInfinity
               | NegInfinity \<Rightarrow> PosInfinity | Num x \<Rightarrow> Num (- x))"

definition strDecimalLiteral :: "string \<Rightarrow> (jsnum \<times> string) option" where
  "strDecimalLiteral s =
     (case s of
        [] \<Rightarrow> None
      | c # r \<Rightarrow>
          if c = CHR ''+'' then strUnsignedDecimalLiteral r
          else if c = CHR ''-'' then
            map_option (\<lambda>(n, t). (negate n, t)) (strUnsignedDecimalLiteral r)
          else strUnsignedDecimalLiteral s)"

text \<open>
  \<^verbatim>\<open>NonDecimalIntegerLiteral\<close>: \<^verbatim>\<open>0x\<close>, \<^verbatim>\<open>0o\<close> or \<^verbatim>\<open>0b\<close> and at least one digit of
  the base, nothing else.
\<close>

definition nonDecimalIntegerLiteral :: "string \<Rightarrow> jsnum option" where
  "nonDecimalIntegerLiteral s =
     (case s of
        z # x # ds \<Rightarrow>
          if z = CHR ''0'' \<and> ds \<noteq> [] then
            (if x \<in> set ''xX'' \<and> list_all isHexDigit ds then Some (Num (real (digitsVal 16 ds)))
             else if x \<in> set ''oO'' \<and> list_all isOctalDigit ds then Some (Num (real (digitsVal 8 ds)))
             else if x \<in> set ''bB'' \<and> list_all isBinaryDigit ds then Some (Num (real (digitsVal 2 ds)))
             else None)
          else None
      | _ \<Rightarrow> None)"

text \<open>
  \<^verbatim>\<open>StrNumericLiteral\<close>: the whole string is a decimal literal or a non-decimal integer
  literal. \<open>stringToNumber\<close> is \<^verbatim>\<open>StringToNumber\<close> of ECMAScript: the text is trimmed, the
  empty text is 0, a numeric literal is its value and anything else is \<^verbatim>\<open>NaN\<close>.
\<close>

definition strNumericLiteral :: "string \<Rightarrow> jsnum option" where
  "strNumericLiteral t =
     (case nonDecimalIntegerLiteral t of
        Some n \<Rightarrow> Some n
      | None \<Rightarrow>
          (case strDecimalLiteral t of
             None \<Rightarrow> None
           | Some (n, rest) \<Rightarrow> if rest = [] then Some n else None))"

definition stringToNumber :: "string \<Rightarrow> jsnum" where
  "stringToNumber s =
     (let t = trim s in
      if t = [] then Num 0
      else (case strNumericLiteral t of None \<Rightarrow> NaN | Some n \<Rightarrow> n))"

text \<open>\<^verbatim>\<open>Number(v)\<close> and \<^verbatim>\<open>isNaN\<close>.\<close>

definition Number :: "jsval \<Rightarrow> jsnum" where
  "Number v = (case v of JUndefined \<Rightarrow> NaN | JNumber n \<Rightarrow> n | JString s \<Rightarrow> stringToNumber s)"

definition isNaN :: "jsnum \<Rightarrow> bool" where
  "isNaN n = (n = NaN)"

text \<open>
  \<^verbatim>\<open>Number.parseFloat\<close>: leading white space is skipped and the longest decimal literal
  at the head is read; \<^verbatim>\<open>NaN\<close> when there is none.
\<close>

definition parseFloat :: "string \<Rightarrow> jsnum" where
  "parseFloat s =
     (case strDecimalLiteral (dropWhile isWhiteSpace s) of None \<Rightarrow> NaN | Some (n, _) \<Rightarrow> n)"

subsection \<open>Writing and reading the properties of a plain object\<close>

text \<open>
  \<^verbatim>\<open>o[k] = v\<close> on an object whose prototype is \<^verbatim>\<open>Object.prototype\<close>. The key
  \<^verbatim>\<open>__proto__\<close> is an accessor of the prototype: the assignment calls its setter, which
  writes no own property (for a string, a number or \<^verbatim>\<open>undefined\<close> it does nothing; for an
  array it replaces the prototype of \<open>o\<close>, which no code of the source reads and the JSON
  response does not show). Any other key becomes an own property. A key that is already
  there keeps its place; a new array index (a canonical decimal numeral below
  \<open>2 ^ 32 - 1\<close>) goes among the array indices in ascending order, which come first; any
  other new key goes to the end.
\<close>

definition isArrayIndex :: "string \<Rightarrow> bool" where
  "isArrayIndex k =
     (if k = [] then False
      else if \<not> list_all isDigit k then False
      else if k = ''0'' then True
      else if prefix ''0'' k then False
      else digitsVal 10 k < 2 ^ 32 - 1)"

fun insertIndex :: "string \<Rightarrow> 'v \<Rightarrow> (string \<times> 'v) list \<Rightarrow> (string \<times> 'v) list" where
  "insertIndex k v [] = [(k, v)]"
| "insertIndex k v (p # ps) =
     (if isArrayIndex (fst p) then
        (if digitsVal 10 (fst p) < digitsVal 10 k then p # insertIndex k v ps
         else (k, v) # p # ps)
      else (k, v) # p # ps)"

definition setProp :: "string \<Rightarrow> 'v \<Rightarrow> (string \<times> 'v) list \<Rightarrow> (string \<times> 'v) list" where
  "setProp k v ob =
     (if k = ''__proto__'' then ob
      else if map_of ob k = None then
        (if isArrayIndex k then insertIndex k v ob else ob @ [(k, v)])
      else AList.update k v ob)"

text \<open>
  \<^verbatim>\<open>o[k]\<close> for a key that comes from the input: the own property when there is one, and
  otherwise what \<^verbatim>\<open>Object.prototype\<close> holds under that name in Node.js, a function (or,
  under \<^verbatim>\<open>__proto__\<close>, the prototype itself).
\<close>

definition objectPrototypeNames :: "string list" where
  "objectPrototypeNames =
     [''constructor'', ''__defineGetter__'', ''__defineSetter__'', ''hasOwnProperty'',
      ''__lookupGetter__'', ''__lookupSetter__'', ''isPrototypeOf'', ''propertyIsEnumerable'',
      ''toString'', ''valueOf'', ''__proto__'', ''toLocaleString'']"

datatype 'v prop_read = Own 'v | Inherited | NoProp

definition readProp :: "(string \<times> 'v) list \<Rightarrow> string \<Rightarrow> 'v prop_read" where
  "readProp ob k =
     (case map_of ob k of
        Some v \<Rightarrow> Own v
      | None \<Rightarrow> if k \<in> set objectPrototypeNames then Inherited else NoProp)"

section \<open>The CSV parser\<close>

text \<open>
  \<^verbatim>\<open>parseCSV\<close> (the route and the client library hold the same function).
  \<^verbatim>\<open>lines[0].split(",")\<close> throws a \<^verbatim>\<open>TypeError\<close> when \<^verbatim>\<open>lines\<close> is empty; the
  \<^verbatim>\<open>forEach\<close> over the headers writes \<^verbatim>\<open>row[header]\<close> for each header, a later header
  of the same name overwriting the earlier one. \<open>coerceCell\<close> is the value written:
  \<^verbatim>\<open>isNaN(Number(value)) ? value : Number(value)\<close>.
\<close>

definition coerceCell :: "jsval \<Rightarrow> jsval" where
  "coerceCell value = (if isNaN (Number value) then value else JNumber (Number value))"

definition parseRow :: "string list \<Rightarrow> string \<Rightarrow> jsval obj" where
  "parseRow headers line =
     (let values = splitStr '','' line in
      foldl (\<lambda>row (header, index).
               let value = elemAt values index in
               setProp header (coerceCell value) row)
        [] (zip headers [0 ..< length headers]))"

definition parseCSV :: "string \<Rightarrow> js_error + jsval obj list" where
  "parseCSV csvData =
     (let lines = splitStr [LF] (trim csvData) in
      case lines of
        [] \<Rightarrow> Inl TypeError
      | l0 # _ \<Rightarrow>
          let headers = splitStr '','' l0 in
          Inr (map (parseRow headers) (drop 1 lines)))"

section \<open>The metrics extractor\<close>

text \<open>
  A regular expression without the \<^verbatim>\<open>g\<close> flag matches at the leftmost position of the
  text where it can: \<open>searchFrom m s\<close> tries the matcher \<open>m\<close>, which matches at the head
  of a string, on \<open>s\<close> and then on each of its suffixes in turn.
\<close>

fun searchFrom :: "(string \<Rightarrow> 'a option) \<Rightarrow> string \<Rightarrow> 'a option" where
  "searchFrom m [] = m []"
| "searchFrom m (c # cs) = (case m (c # cs) of Some r \<Rightarrow> Some r | None \<Rightarrow> searchFrom m cs)"

text \<open>
  \<^verbatim>\<open>(.*?)\n\<close> at the head of a string. The dot matches no line terminator, so the
  capture is the text up to the first line terminator, and that terminator has to be
  a line feed. The result is the capture and the text after the line feed.
  \<open>lazyLineOrEnd\<close> is \<^verbatim>\<open>(.*?)(?:\n|$)\<close>, which also matches when the text ends first.
\<close>

definition lazyLine :: "string \<Rightarrow> (string \<times> string) option" where
  "lazyLine s =
     (case dropWhile (\<lambda>c. \<not> isLineTerminator c) s of
        [] \<Rightarrow> None
      | c # rest \<Rightarrow>
          if c = LF then Some (takeWhile (\<lambda>c. \<not> isLineTerminator c) s, rest) else None)"

definition lazyLineOrEnd :: "string \<Rightarrow> string option" where
  "lazyLineOrEnd s =
     (case dropWhile (\<lambda>c. \<not> isLineTerminator c) s of
        [] \<Rightarrow> Some s
      | c # rest \<Rightarrow>
          if c = LF then Some (takeWhile (\<lambda>c. \<not> isLineTerminator c) s) else None)"

text \<open>
  \<^verbatim>\<open>/=== Final Summary ===([\s\S]*?)(?=\n\nGenerating predictions|$)/\<close>: the capture runs
  from the marker to the first \<^verbatim>\<open>\n\nGenerating predictions\<close> after it, or to the end of
  the text.
\<close>

definition summaryCapture :: "string \<Rightarrow> string" where
  "summaryCapture rest =
     (case breakOn ([LF, LF] @ ''Generating predictions'') rest of
        None \<Rightarrow> rest
      | Some (a, b) \<Rightarrow> a)"

definition finalSummaryAt :: "string \<Rightarrow> string option" where
  "finalSummaryAt s =
     (if prefix ''=== Final Summary ==='' s
      then Some (summaryCapture (drop (length ''=== Final Summary ==='') s))
      else None)"

text \<open>\<^verbatim>\<open>/^(.*?)\n/\<close>, \<^verbatim>\<open>/Best model: (.*?)(?:\n|$)/\<close> and \<^verbatim>\<open>/R2: ([\d.]+)/\<close> (the same for
  \<^verbatim>\<open>RMSE: \<close>), each at the head of a string.\<close>

definition targetMatch :: "string \<Rightarrow> string option" where
  "targetMatch block = map_option fst (lazyLine block)"

definition bestModelAt :: "string \<Rightarrow> string option" where
  "bestModelAt s =
     (if prefix ''Best model: '' s then lazyLineOrEnd (drop (length ''Best model: '') s)
      else None)"

definition isDigitOrDot :: "char \<Rightarrow> bool" where
  "isDigitOrDot c = (if isDigit c then True else c = CHR ''.'')"

definition labelledNumberAt :: "string \<Rightarrow> string \<Rightarrow> string option" where
  "labelledNumberAt label s =
     (if prefix label s then
        (let run = takeWhile isDigitOrDot (drop (length label) s) in
         if run = [] then None else Some run)
      else None)"

record metrics =
  r2Scores :: "jsnum obj"
  rmseScores :: "jsnum obj"
  mseScores :: "jsnum obj"
  bestModels :: "string obj"
  bestFeatures :: "string list obj"

definition emptyMetrics :: metrics where
  "emptyMetrics =
     \<lparr>r2Scores = [], rmseScores = [], mseScores = [], bestModels = [], bestFeatures = []\<rparr>"

text \<open>
  The truth value of a number: \<^verbatim>\<open>NaN\<close> and 0 are falsy. \<open>pow2\<close> is \<^verbatim>\<open>Math.pow(x, 2)\<close>.
\<close>

definition truthyNum :: "jsnum \<Rightarrow> bool" where
  "truthyNum n = (case n of NaN \<Rightarrow> False | Num x \<Rightarrow> x \<noteq> 0 | _ \<Rightarrow> True)"

definition pow2 :: "jsnum \<Rightarrow> jsnum" where
  "pow2 n = (case n of NaN \<Rightarrow> NaN | Num x \<Rightarrow> Num (x ^ 2) | _ \<Rightarrow> PosInfinity)"

text \<open>
  The body of \<^verbatim>\<open>targetBlocks.slice(1).forEach\<close>: one summary block updates the metrics.
  The test \<^verbatim>\<open>if (metrics.rmseScores[target])\<close> reads through the prototype: without an
  own property, a target named like a property of \<^verbatim>\<open>Object.prototype\<close> reads an object,
  which is truthy and whose square is \<^verbatim>\<open>NaN\<close>.
\<close>

definition processBlock :: "metrics \<Rightarrow> string \<Rightarrow> metrics" where
  "processBlock m block =
     (case targetMatch block of
        None \<Rightarrow> m
      | Some t \<Rightarrow>
          let target = trim t;
              m1 = (case searchFrom bestModelAt block of
                      None \<Rightarrow> m
                    | Some name \<Rightarrow>
                        m\<lparr>bestModels :=
                            setProp target (trim (replaceFirst ''Regressor'' [] name))
                              (bestModels m)\<rparr>);
              m2 = (case searchFrom (labelledNumberAt ''R2: '') block of
                      None \<Rightarrow> m1
                    | Some r \<Rightarrow>
                        m1\<lparr>r2Scores := setProp target (parseFloat r) (r2Scores m1)\<rparr>);
              m3 = (case searchFrom (labelledNumberAt ''RMSE: '') block of
                      None \<Rightarrow> m2
                    | Some r \<Rightarrow>
                        m2\<lparr>rmseScores := setProp target (parseFloat r) (rmseScores m2)\<rparr>)
          in
            case readProp (rmseScores m3) target of
              NoProp \<Rightarrow> m3
            | Inherited \<Rightarrow> m3\<lparr>mseScores := setProp target NaN (mseScores m3)\<rparr>
            | Own rmse \<Rightarrow>
                if truthyNum rmse
                then m3\<lparr>mseScores := setProp target (pow2 rmse) (mseScores m3)\<rparr>
                else m3)"

definition summaryMetrics :: "string \<Rightarrow> metrics" where
  "summaryMetrics output =
     (case searchFrom finalSummaryAt output of
        None \<Rightarrow> emptyMetrics
      | Some summaryText \<Rightarrow>
          foldl processBlock emptyMetrics (drop 1 (splitStr (LF # ''Target:'') summaryText)))"

text \<open>
  \<^verbatim>\<open>/Selected (\d+) features for (.*?)\n/g\<close> at the head of a string: the digits, the
  name and the text after the match. \<open>selectedMatches\<close> is \<^verbatim>\<open>output.matchAll\<close>: the
  matches from left to right, each search starting where the last match ended.
\<close>

definition selectedAt :: "string \<Rightarrow> (string \<times> string \<times> string) option" where
  "selectedAt s =
     (if prefix ''Selected '' s then
        (let r = drop (length ''Selected '') s;
             ds = takeWhile isDigit r;
             r1 = dropWhile isDigit r
         in if ds = [] then None
            else if prefix '' features for '' r1 then
              (case lazyLine (drop (length '' features for '') r1) of
                 None \<Rightarrow> None
               | Some (name, rest) \<Rightarrow> Some (ds, name, rest))
            else None)
      else None)"

lemma lazyLine_shorter: "lazyLine s = Some (cap, rest) \<Longrightarrow> length rest < length s"
proof -
  assume a: "lazyLine s = Some (cap, rest)"
  have "length (dropWhile (\<lambda>c. \<not> isLineTerminator c) s) \<le> length s"
    by (rule length_dropWhile_le)
  with a show ?thesis
    by (auto simp: lazyLine_def split: list.splits if_splits)
qed

lemma selectedAt_shorter: "selectedAt s = Some (ds, name, rest) \<Longrightarrow> length rest < length s"
proof -
  assume a: "selectedAt s = Some (ds, name, rest)"
  define r1 where "r1 = dropWhile isDigit (drop (length ''Selected '') s)"
  have "length r1 \<le> length (drop (length ''Selected '') s)"
    unfolding r1_def by (rule length_dropWhile_le)
  then have b: "length (drop (length '' features for '') r1) \<le> length s"
    by simp
  from a have "lazyLine (drop (length '' features for '') r1) = Some (name, rest)"
    by (auto simp: selectedAt_def Let_def r1_def split: if_splits option.splits)
  from lazyLine_shorter [OF this] b show ?thesis
    by simp
qed

function selectedMatches :: "string \<Rightarrow> (string \<times> string) list" where
  "selectedMatches [] = []"
| "selectedMatches (c # cs) =
     (case selectedAt (c # cs) of
        None \<Rightarrow> selectedMatches cs
      | Some (ds, name, rest) \<Rightarrow> (ds, name) # selectedMatches rest)"
  by pat_completeness auto
termination
  by (relation "measure length") (auto dest: selectedAt_shorter)

text \<open>\<^verbatim>\<open>String(n)\<close> for a natural number, as a template literal renders it.\<close>

function showNat :: "nat \<Rightarrow> string" where
  "showNat n =
     (if n < 10 then [''0123456789'' ! n]
      else showNat (n div 10) @ [''0123456789'' ! (n mod 10)])"
  by pat_completeness auto
termination
  by (relation "measure id") auto

declare showNat.simps [simp del]

text \<open>
  \<^verbatim>\<open>Array(n).fill(0).map((_, i) => `Feature ${i + 1}`)\<close>: \<^verbatim>\<open>Array(n)\<close> throws a
  \<^verbatim>\<open>RangeError\<close> when \<open>n\<close> is not an array length, that is from \<open>2 ^ 32\<close> on.
  \<^verbatim>\<open>Number.parseInt\<close> of a digit string is its decimal value (rounded by the runtime
  above \<open>2 ^ 53\<close>, which does not move it across \<open>2 ^ 32\<close>).
\<close>

definition placeholderFeatures :: "nat \<Rightarrow> js_error + string list" where
  "placeholderFeatures n =
     (if n < 2 ^ 32 then Inr (map (\<lambda>i. ''Feature '' @ showNat (i + 1)) [0 ..< n])
      else Inl RangeError)"

fun addFeatures :: "metrics \<Rightarrow> (string \<times> string) list \<Rightarrow> js_error + metrics" where
  "addFeatures m [] = Inr m"
| "addFeatures m ((ds, name) # rest) =
     (case placeholderFeatures (digitsVal 10 ds) of
        Inl e \<Rightarrow> Inl e
      | Inr fs \<Rightarrow>
          addFeatures (m\<lparr>bestFeatures := setProp (trim name) fs (bestFeatures m)\<rparr>) rest)"

definition extractModelMetrics :: "string \<Rightarrow> js_error + metrics" where
  "extractModelMetrics output = addFeatures (summaryMetrics output) (selectedMatches output)"

text \<open>
  The target block of the specification's example, as \<^verbatim>\<open>split("\nTarget:")\<close> cuts it
  out of a summary: the rest of the \<^verbatim>\<open>Target: Ph\<close> line and the three lines after it.
\<close>

definition exampleBlock :: string where
  "exampleBlock =
     '' Ph'' @ [LF] @ ''Best model: Random Forest Regressor'' @ [LF] @ ''R2: 0.870'' @ [LF]
     @ ''RMSE: 0.420''"

text \<open>
  A condition on the text alone under which no feature count of it is too large for
  \<^verbatim>\<open>Array\<close>: the digits that follow \<^verbatim>\<open>Selected \<close>, wherever it stands, are a number below
  \<open>2 ^ 32\<close>.
\<close>

fun countsFit :: "string \<Rightarrow> bool" where
  "countsFit [] = True"
| "countsFit (c # cs) =
     (if prefix ''Selected '' (c # cs)
      then (if digitsVal 10 (takeWhile isDigit (drop (length ''Selected '') (c # cs))) < 2 ^ 32
            then countsFit cs else False)
      else countsFit cs)"

section \<open>The analysis orchestrator\<close>

text \<open>
  \<^verbatim>\<open>runPythonModel\<close> settles its promise from the events of the child process: an
  \<^verbatim>\<open>error\<close> event (the process could not be started) or a \<^verbatim>\<open>close\<close> event with the
  exit code (\<^verbatim>\<open>null\<close> when a signal ended the process) after all of standard output and
  standard error have been collected. \<open>Inl\<close> is the rejection with its message.
\<close>

datatype proc_result =
    SpawnError string
  | Closed "int option" string string

definition showCode :: "int option \<Rightarrow> string" where
  "showCode code =
     (case code of
        None \<Rightarrow> ''null''
      | Some i \<Rightarrow> if i < 0 then CHR ''-'' # showNat (nat (- i)) else showNat (nat i))"

definition runPythonModel :: "proc_result \<Rightarrow> string + string" where
  "runPythonModel p =
     (case p of
        SpawnError message \<Rightarrow> Inl (''Failed to start Python process: '' @ message)
      | Closed code outputData errorData \<Rightarrow>
          if code \<noteq> Some 0
          then Inl (''Python process failed with code '' @ showCode code @ '': '' @ errorData)
          else Inr outputData)"

text \<open>
  What one request meets outside the handler: whether each working directory exists or
  can be made, what \<^verbatim>\<open>request.formData()\<close> holds under \<^verbatim>\<open>file\<close> (\<open>None\<close> when reading
  the form throws), whether the upload can be written, how the child process ends, and
  the text of the predictions file (\<open>None\<close> when \<^verbatim>\<open>readFile\<close> throws).
\<close>

datatype form_file = Absent | TextField string | FileField string

record request_env =
  uploadDirReady :: bool
  outputDirReady :: bool
  formData :: "form_file option"
  writeFileOk :: bool
  process :: proc_result
  readFile :: "string option"

datatype body =
    ErrorBody string "string option"
  | SuccessBody "jsval obj list" metrics string

record response =
  status :: nat
  body :: body

definition internalServerError :: response where
  "internalServerError = \<lparr>status = 500, body = ErrorBody ''Internal server error'' None\<rparr>"

text \<open>
  \<^verbatim>\<open>POST\<close>. Every exception outside the inner \<^verbatim>\<open>try\<close> reaches the outer \<^verbatim>\<open>catch\<close>, which
  answers \<open>internalServerError\<close>; a form field that is a non-empty string has no
  \<^verbatim>\<open>arrayBuffer\<close> method, which is such an exception.
\<close>

definition POST :: "request_env \<Rightarrow> response" where
  "POST env =
     (if \<not> uploadDirReady env then internalServerError
      else if \<not> outputDirReady env then internalServerError
      else
        (case formData env of
          None \<Rightarrow> internalServerError
        | Some Absent \<Rightarrow> \<lparr>status = 400, body = ErrorBody ''No file provided'' None\<rparr>
        | Some (TextField t) \<Rightarrow>
            if t = [] then \<lparr>status = 400, body = ErrorBody ''No file provided'' None\<rparr>
            else internalServerError
        | Some (FileField buffer) \<Rightarrow>
            if \<not> writeFileOk env then internalServerError
            else
              (case runPythonModel (process env) of
                Inl rejection \<Rightarrow> internalServerError
              | Inr modelOutput \<Rightarrow>
                  (case readFile env of
                     None \<Rightarrow>
                       \<lparr>status = 500,
                        body = ErrorBody ''Failed to read model predictions'' (Some modelOutput)\<rparr>
                   | Some predictionsData \<Rightarrow>
                       (case parseCSV predictionsData of
                          Inl e \<Rightarrow>
                            \<lparr>status = 500,
                             body = ErrorBody ''Failed to read model predictions''
                                      (Some modelOutput)\<rparr>
                        | Inr predictions \<Rightarrow>
                            (case extractModelMetrics modelOutput of
                               Inl e \<Rightarrow> internalServerError
                             | Inr metrics \<Rightarrow>
                                 \<lparr>status = 200,
                                  body = SuccessBody predictions metrics modelOutput\<rparr>))))))"

text \<open>The text a response body carries: its message and the model output it holds.\<close>

definition carriesText :: "response \<Rightarrow> string \<Rightarrow> bool" where
  "carriesText r t =
     (case body r of
        ErrorBody message None \<Rightarrow> includesStr message t
      | ErrorBody message (Some modelOutput) \<Rightarrow>
          if includesStr message t then True else includesStr modelOutput t
      | SuccessBody predictions metrics modelOutput \<Rightarrow> includesStr modelOutput t)"

section \<open>The simulation of the client library\<close>

text \<open>
  \<^verbatim>\<open>Math.random\<close> is a stream of draws: the \<open>i\<close>-th call returns \<open>rnd i\<close>, a number from
  0 up to but not including 1. A function that draws takes the number of draws made so
  far and returns the new count.
\<close>

type_synonym random = "nat \<Rightarrow> real"

definition validRandom :: "random \<Rightarrow> bool" where
  "validRandom rnd = (\<forall>i. 0 \<le> rnd i \<and> rnd i < 1)"

subsection \<open>The single-sample predictor\<close>

record single_prediction =
  Soil_ID :: string
  Ph :: real
  Moist :: real
  EC :: real
  Nitro :: real
  Posh_Nitro :: real
  Pota_Nitro :: real

text \<open>\<^verbatim>\<open>Object.keys(spectralData).filter((key) => !isNaN(Number(key)))\<close> and the quality
  score, the number of those keys over 18.\<close>

definition wavelengths :: "jsval obj \<Rightarrow> string list" where
  "wavelengths spectralData =
     filter (\<lambda>key. \<not> isNaN (Number (JString key))) (map fst spectralData)"

definition qualityScore :: "jsval obj \<Rightarrow> real" where
  "qualityScore spectralData = real (length (wavelengths spectralData)) / 18"

definition simulateSinglePrediction :: "jsval obj \<Rightarrow> random \<Rightarrow> single_prediction" where
  "simulateSinglePrediction spectralData rnd =
     (let q = qualityScore spectralData in
      \<lparr>Soil_ID = ''Sample_1'',
       Ph = 6.5 + q * 0.5 + (rnd 0 * 0.5 - 0.25),
       Moist = 35 + q * 10 + (rnd 1 * 10 - 5),
       EC = 800 + q * 200 + (rnd 2 * 200 - 100),
       Nitro = 18 + q * 5 + (rnd 3 * 5 - 2.5),
       Posh_Nitro = 12 + q * 4 + (rnd 4 * 4 - 2),
       Pota_Nitro = 25 + q * 7.5 + (rnd 5 * 7.5 - 3.75)\<rparr>)"

subsection \<open>The predictions of the simulated analysis\<close>

text \<open>The truth value of a JavaScript value and the \<^verbatim>\<open>||\<close> operator on values that are
  already computed.\<close>

definition truthy :: "jsval \<Rightarrow> bool" where
  "truthy v =
     (case v of
        JUndefined \<Rightarrow> False
      | JNumber n \<Rightarrow> (case n of NaN \<Rightarrow> False | Num x \<Rightarrow> x \<noteq> 0 | _ \<Rightarrow> True)
      | JString s \<Rightarrow> s \<noteq> [])"

definition showInt :: "int \<Rightarrow> string" where
  "showInt i = (if i < 0 then CHR ''-'' # showNat (nat (- i)) else showNat (nat i))"

text \<open>
  The body of \<^verbatim>\<open>data.map\<close> that computes \<^verbatim>\<open>soilIds\<close>: a draw is made only when both
  \<^verbatim>\<open>row.Soil_ID\<close> and \<^verbatim>\<open>row.Records\<close> are falsy.
\<close>

definition soilIdOf :: "random \<Rightarrow> nat \<Rightarrow> jsval obj \<Rightarrow> jsval \<times> nat" where
  "soilIdOf rnd i row =
     (let (soilId, i') =
            (if truthy (getProp row ''Soil_ID'') then (getProp row ''Soil_ID'', i)
             else if truthy (getProp row ''Records'') then (getProp row ''Records'', i)
             else (JString (''Sample_'' @ showInt \<lfloor>rnd i * 1000\<rfloor>), Suc i))
      in case soilId of
           JString s \<Rightarrow>
             if includesStr s ''-'' then (elemAt (splitStr ''-'' s) 0, i') else (soilId, i')
         | _ \<Rightarrow> (soilId, i'))"

fun soilIds :: "random \<Rightarrow> nat \<Rightarrow> jsval obj list \<Rightarrow> jsval list \<times> nat" where
  "soilIds rnd i [] = ([], i)"
| "soilIds rnd i (row # rows) =
     (let (soilId, i1) = soilIdOf rnd i row;
          (ids, i2) = soilIds rnd i1 rows
      in (soilId # ids, i2))"

definition targetParams :: "string list" where
  "targetParams =
     [''Ph'', ''Moist'', ''EC (u/10 gram)'', ''Nitro (mg/10 g)'', ''Posh Nitro (mg/10 g)'',
      ''Pota Nitro (mg/10 g)'']"

definition moistureLevelOf :: "jsval \<Rightarrow> jsval obj \<Rightarrow> nat \<Rightarrow> jsval" where
  "moistureLevelOf soilId row index =
     (let fromRow =
            (if truthy (getProp row ''Moisture_Level'') then getProp row ''Moisture_Level''
             else JString ([''0ml'', ''25ml'', ''50ml''] ! (index mod 3)))
      in case soilId of
           JString s \<Rightarrow>
             if includesStr s ''_'' then
               (let parts = splitStr ''_'' s in
                if length parts > 1 then elemAt parts 1 else JString ''0ml'')
             else fromRow
         | _ \<Rightarrow> fromRow)"

text \<open>The \<^verbatim>\<open>switch\<close> that simulates a missing target from one draw \<open>r\<close>; it has no
  \<^verbatim>\<open>default\<close> branch.\<close>

definition synthesize :: "string \<Rightarrow> jsval \<Rightarrow> real \<Rightarrow> real option" where
  "synthesize param moistureLevel r =
     (if param = ''Ph'' then Some (6.5 + (r * 1.5 - 0.75))
      else if param = ''Moist'' then
        (let baseValue =
               (if moistureLevel = JString ''0ml'' then 15
                else if moistureLevel = JString ''25ml'' then 35 else 55)
         in Some (baseValue + (r * 10 - 5)))
      else if param = ''EC (u/10 gram)'' then Some (800 + (r * 400 - 200))
      else if param = ''Nitro (mg/10 g)'' then Some (18 + (r * 10 - 5))
      else if param = ''Posh Nitro (mg/10 g)'' then Some (12 + (r * 8 - 4))
      else if param = ''Pota Nitro (mg/10 g)'' then Some (25 + (r * 15 - 7.5))
      else None)"

text \<open>The body of \<^verbatim>\<open>targetParams.forEach\<close>: the prediction so far and the draws made.\<close>

definition fillParam ::
  "random \<Rightarrow> jsval obj \<Rightarrow> jsval \<Rightarrow> jsval obj \<times> nat \<Rightarrow> string \<Rightarrow> jsval obj \<times> nat" where
  "fillParam rnd row moistureLevel st param =
     (case st of (prediction, i) \<Rightarrow>
        if getProp row param \<noteq> JUndefined
        then (AList.update param (getProp row param) prediction, i)
        else (case synthesize param moistureLevel (rnd i) of
                None \<Rightarrow> (prediction, i)
              | Some x \<Rightarrow> (AList.update param (JNumber (Num x)) prediction, Suc i)))"

definition predictionOf ::
  "random \<Rightarrow> nat \<Rightarrow> nat \<Rightarrow> jsval obj \<Rightarrow> jsval \<Rightarrow> jsval obj \<times> nat" where
  "predictionOf rnd i index row soilId =
     (let moistureLevel = moistureLevelOf soilId row index in
      foldl (fillParam rnd row moistureLevel)
        ([(''Soil_ID'', soilId), (''Moisture_Level'', moistureLevel)], i) targetParams)"

fun predictionsFrom ::
  "random \<Rightarrow> nat \<Rightarrow> nat \<Rightarrow> jsval obj list \<Rightarrow> jsval list \<Rightarrow> jsval obj list" where
  "predictionsFrom rnd i index (row # rows) (soilId # ids) =
     (let (prediction, i') = predictionOf rnd i index row soilId
      in prediction # predictionsFrom rnd i' (Suc index) rows ids)"
| "predictionsFrom rnd i index _ _ = []"

text \<open>
  \<^verbatim>\<open>simulateModelAnalysis\<close>, its \<^verbatim>\<open>predictions\<close>: the metrics it returns are constants of
  the source and its model output is a text rendered from them.
\<close>

definition simulateModelAnalysis :: "jsval obj list \<Rightarrow> random \<Rightarrow> jsval obj list" where
  "simulateModelAnalysis data rnd =
     (let (ids, i) = soilIds rnd 0 data in predictionsFrom rnd i 0 data ids)"

text \<open>
  What it means for a prediction to carry all six targets of a row: each target is a key
  of the prediction; its value is the row's where the row has one (\<^verbatim>\<open>row[param] !==
  undefined\<close>) and a finite number made up by the simulation otherwise.
\<close>

definition carriesTargets :: "jsval obj \<Rightarrow> jsval obj \<Rightarrow> bool" where
  "carriesTargets row prediction =
     (\<forall>param \<in> set targetParams.
        if getProp row param \<noteq> JUndefined
        then map_of prediction param = Some (getProp row param)
        else (\<exists>x. map_of prediction param = Some (JNumber (Num x))))"

section \<open>Writing rows back as CSV\<close>

text \<open>
  The source has no CSV writer. \<open>serializeCSV\<close> follows the words of the specification:
  the header line, then one comma-joined line per row, the columns in the order of the
  header of the text that was parsed (\<open>csvHeaders\<close>). It writes the own properties of
  a row: a string cell as it is and an \<^verbatim>\<open>undefined\<close> cell as the empty text, as \<^verbatim>\<open>Array.prototype.join\<close> does. How the
  runtime prints a number depends on its binary doubles, so the printer \<open>fmt\<close> is a
  parameter.
\<close>

definition cellText :: "(jsnum \<Rightarrow> string) \<Rightarrow> jsval \<Rightarrow> string" where
  "cellText fmt v = (case v of JUndefined \<Rightarrow> [] | JNumber n \<Rightarrow> fmt n | JString s \<Rightarrow> s)"

definition serializeCSV :: "(jsnum \<Rightarrow> string) \<Rightarrow> string list \<Rightarrow> jsval obj list \<Rightarrow> string" where
  "serializeCSV fmt headers rows =
     join [LF]
       (join '','' headers
        # map (\<lambda>row. join '','' (map (\<lambda>h. cellText fmt (getProp row h)) headers)) rows)"

definition csvHeaders :: "string \<Rightarrow> string list" where
  "csvHeaders csvText =
     (case splitStr [LF] (trim csvText) of [] \<Rightarrow> [] | l0 # ls \<Rightarrow> splitStr '','' l0)"



section \<open>Properties of plain objects\<close>

lemma map_of_insertIndex:
  "map_of ob k = None \<Longrightarrow> map_of (insertIndex k v ob) = (map_of ob)(k \<mapsto> v)"
proof (induction ob)
  case Nil
  show ?case by simp
next
  case (Cons p ps)
  obtain k' v' where p: "p = (k', v')" by (cases p)
  with Cons.prems have ne: "k' \<noteq> k" and none: "map_of ps k = None"
    by (simp_all split: if_splits)
  from Cons.IH [OF none] ne show ?case
    by (auto simp: p fun_upd_twist)
qed

lemma map_of_setProp:
  assumes "k \<noteq> ''__proto__''"
  shows "map_of (setProp k v ob) = (map_of ob)(k \<mapsto> v)"
proof (cases "map_of ob k")
  case None
  have "map_of (ob @ [(k, v)]) = (map_of ob)(k \<mapsto> v)"
  proof
    fix x
    show "map_of (ob @ [(k, v)]) x = ((map_of ob)(k \<mapsto> v)) x"
      using None by (cases "x = k") (simp_all add: map_add_def split: option.splits)
  qed
  with None assms show ?thesis
    by (simp add: setProp_def map_of_insertIndex del: map_of_eq_None_iff map_of_append)
next
  case (Some w)
  with assms show ?thesis
    by (simp add: setProp_def update_conv')
qed

lemma map_of_setProp_other: "k' \<noteq> k \<Longrightarrow> map_of (setProp k v ob) k' = map_of ob k'"
  by (cases "k = ''__proto__''") (simp_all add: map_of_setProp, simp add: setProp_def)

section \<open>Properties of the orchestrator\<close>

text \<open>
  C1, as the code has it. When the external process exits with a nonzero code (or is
  ended by a signal), \<open>runPythonModel\<close> rejects with a message that ends with the
  captured standard error, verbatim, after the exit code. The handler catches that
  rejection in its outer \<^verbatim>\<open>catch\<close>: whenever a file was uploaded, its answer to the caller
  is status 500 with the fixed message \<^verbatim>\<open>Internal server error\<close> and no model output, so
  the standard error text goes to the server log only.
\<close>

theorem POST_process_failure:
  assumes "formData env = Some (FileField buffer)"
    and "process env = Closed code outputData errorData"
    and "code \<noteq> Some 0"
  shows "runPythonModel (process env) =
           Inl (''Python process failed with code '' @ showCode code @ '': '' @ errorData)
         \<and> POST env = \<lparr>status = 500, body = ErrorBody ''Internal server error'' None\<rparr>"
  using assms by (simp add: runPythonModel_def POST_def internalServerError_def)

theorem POST_process_failure_witness:
  "runPythonModel (Closed (Some 1) ''out'' ''boom'') =
     Inl ''Python process failed with code 1: boom''
   \<and> POST \<lparr>uploadDirReady = True, outputDirReady = True, formData = Some (FileField ''csv''),
           writeFileOk = True, process = Closed (Some 1) ''out'' ''boom'', readFile = None\<rparr>
       = \<lparr>status = 500, body = ErrorBody ''Internal server error'' None\<rparr>"
  using POST_process_failure [of
      "\<lparr>uploadDirReady = True, outputDirReady = True, formData = Some (FileField ''csv''),
        writeFileOk = True, process = Closed (Some 1) ''out'' ''boom'', readFile = None\<rparr>"
      "''csv''" "Some 1" "''out''" "''boom''"]
  by (simp add: showCode_def showNat.simps)

text \<open>
  C1, as the specification states it, fails: with exit code 1 and the standard error
  \<^verbatim>\<open>boom\<close>, the response delivered to the caller does not contain \<^verbatim>\<open>boom\<close>.
\<close>

theorem POST_process_failure_counterexample:
  "\<not> carriesText
       (POST \<lparr>uploadDirReady = True, outputDirReady = True, formData = Some (FileField ''csv''),
              writeFileOk = True, process = Closed (Some 1) ''out'' ''boom'', readFile = None\<rparr>)
       ''boom''"
  by (simp add: POST_def runPythonModel_def internalServerError_def carriesText_def
      includesStr_def)

text \<open>
  C5. When the upload was stored, the external process exits with code zero and the
  predictions file cannot be read, the response is status 500 with the message
  \<^verbatim>\<open>Failed to read model predictions\<close> and the captured standard output as its model
  output; it differs from the response to the same request with a process that exits
  with any nonzero code.
\<close>

theorem POST_result_missing:
  assumes "uploadDirReady env" and "outputDirReady env"
    and "formData env = Some (FileField buffer)" and "writeFileOk env"
    and "process env = Closed (Some 0) outputData errorData"
    and "readFile env = None"
  shows "POST env =
           \<lparr>status = 500,
            body = ErrorBody ''Failed to read model predictions'' (Some outputData)\<rparr>
         \<and> (\<forall>code out err. code \<noteq> Some 0 \<longrightarrow>
               POST (env\<lparr>process := Closed code out err\<rparr>) \<noteq> POST env)"
  using assms by (simp add: runPythonModel_def POST_def internalServerError_def)

theorem POST_result_missing_witness:
  "POST \<lparr>uploadDirReady = True, outputDirReady = True, formData = Some (FileField ''csv''),
         writeFileOk = True, process = Closed (Some 0) ''Data loaded'' ''warn'',
         readFile = None\<rparr>
     = \<lparr>status = 500,
        body = ErrorBody ''Failed to read model predictions'' (Some ''Data loaded'')\<rparr>
   \<and> POST \<lparr>uploadDirReady = True, outputDirReady = True, formData = Some (FileField ''csv''),
           writeFileOk = True, process = Closed (Some 2) ''Data loaded'' ''boom'',
           readFile = None\<rparr>
       \<noteq> POST \<lparr>uploadDirReady = True, outputDirReady = True,
                formData = Some (FileField ''csv''), writeFileOk = True,
                process = Closed (Some 0) ''Data loaded'' ''warn'', readFile = None\<rparr>"
  using POST_result_missing [of
      "\<lparr>uploadDirReady = True, outputDirReady = True, formData = Some (FileField ''csv''),
        writeFileOk = True, process = Closed (Some 0) ''Data loaded'' ''warn'',
        readFile = None\<rparr>"
      "''csv''" "''Data loaded''" "''warn''"]
  by (simp add: POST_def runPythonModel_def internalServerError_def)

section \<open>Properties of the CSV parser\<close>

lemma splitAcc_not_Nil: "splitAcc sep acc s \<noteq> []"
  by (induction sep acc s rule: splitAcc.induct) auto

lemma trim_all_white: "list_all isWhiteSpace s \<Longrightarrow> trim s = []"
proof -
  assume "list_all isWhiteSpace s"
  then have d: "dropWhile isWhiteSpace s = []"
    by (simp add: list_all_iff)
  show ?thesis
    unfolding trim_def d by simp
qed

text \<open>
  C10. \<open>parseCSV\<close> returns a list of rows on every input string: \<^verbatim>\<open>split\<close> always gives at
  least one line, so \<^verbatim>\<open>lines[0]\<close> is defined. On the empty string, and on a string of
  white space only, the result is the empty list.
\<close>

theorem parseCSV_total:
  "(\<exists>rows. parseCSV csvData = Inr rows)
   \<and> parseCSV [] = Inr []
   \<and> (list_all isWhiteSpace csvData \<longrightarrow> parseCSV csvData = Inr [])"
proof -
  have "\<exists>rows. parseCSV csvData = Inr rows"
    using splitAcc_not_Nil [of "[LF]" "[]" "trim csvData"]
    by (auto simp: parseCSV_def splitStr_def Let_def split: list.splits)
  moreover have "parseCSV [] = Inr []"
    by (simp add: parseCSV_def splitStr_def trim_def)
  moreover have "list_all isWhiteSpace csvData \<longrightarrow> parseCSV csvData = Inr []"
    by (simp add: parseCSV_def splitStr_def trim_all_white)
  ultimately show ?thesis by blast
qed

theorem parseCSV_total_witness:
  "list_all isWhiteSpace [CHR '' '', LF, CHR '' '']
   \<and> parseCSV [CHR '' '', LF, CHR '' ''] = Inr []"
  using parseCSV_total [of "[CHR '' '', LF, CHR '' '']"]
  by (simp add: isWhiteSpace_def)

text \<open>
  What the parser writes for a cell. A numeric literal never denotes \<^verbatim>\<open>NaN\<close>, so a cell
  text becomes a number exactly when its trimmed text is empty or a numeric literal, and
  is kept as it is otherwise; a cell that the row lacks stays \<^verbatim>\<open>undefined\<close>.
\<close>

lemma strUnsignedDecimalLiteral_not_NaN:
  "strUnsignedDecimalLiteral s = Some (n, r) \<Longrightarrow> n \<noteq> NaN"
  by (auto simp: strUnsignedDecimalLiteral_def Let_def
      split: if_splits list.splits prod.splits)

lemma strNumericLiteral_not_NaN: "strNumericLiteral t \<noteq> Some NaN"
proof -
  have "nonDecimalIntegerLiteral t \<noteq> Some NaN"
    by (auto simp: nonDecimalIntegerLiteral_def split: list.splits if_splits)
  moreover have "strDecimalLiteral t \<noteq> Some (NaN, r)" for r
    using strUnsignedDecimalLiteral_not_NaN
    by (auto simp: strDecimalLiteral_def negate_def split: list.splits if_splits jsnum.splits)
  ultimately show ?thesis
    by (auto simp: strNumericLiteral_def split: option.splits if_splits)
qed

lemma coerceCell_JString:
  "coerceCell (JString c) =
     (if trim c = [] then JNumber (Num 0)
      else case strNumericLiteral (trim c) of None \<Rightarrow> JString c | Some n \<Rightarrow> JNumber n)"
  using strNumericLiteral_not_NaN [of "trim c"]
  by (auto simp: coerceCell_def Number_def isNaN_def stringToNumber_def Let_def
      split: option.splits)

lemma coerceCell_JUndefined: "coerceCell JUndefined = JUndefined"
  by (simp add: coerceCell_def Number_def isNaN_def)

text \<open>
  C2 at the input \<^verbatim>\<open>a,b,c\n1,, \nx\<close>. The empty cell and the cell of one space are no
  numeric literals, and the parser turns both into the number 0, because
  \<^verbatim>\<open>Number("")\<close> is 0 and not \<^verbatim>\<open>NaN\<close>; the cells that the short second row lacks
  become \<^verbatim>\<open>undefined\<close>, not a string.
\<close>

theorem parseCSV_empty_cell:
  "parseCSV (''a,b,c'' @ [LF] @ ''1,, '' @ [LF] @ ''x'') =
     Inr [[(''a'', JNumber (Num 1)), (''b'', JNumber (Num 0)), (''c'', JNumber (Num 0))],
          [(''a'', JString ''x''), (''b'', JUndefined), (''c'', JUndefined)]]"
  by code_simp

section \<open>The CSV round trip\<close>











text \<open>
  The other conditions of the round trip are needed as well: with a repeated header name
  the row keeps the last value only, and a data line with fewer fields than the header
  gets \<^verbatim>\<open>undefined\<close> cells, which are written back as empty fields.
\<close>

lemma parseCSV_repeated_header:
  "parseCSV (''a,a'' @ [LF] @ ''x,y'') = Inr [[(''a'', JString ''y'')]]
   \<and> csvHeaders (''a,a'' @ [LF] @ ''x,y'') = [''a'', ''a'']
   \<and> (\<forall>fmt. serializeCSV fmt [''a'', ''a''] [[(''a'', JString ''y'')]]
               = ''a,a'' @ [LF] @ ''y,y'')"
  by (simp add: parseCSV_def parseRow_def csvHeaders_def serializeCSV_def cellText_def
      getProp_def coerceCell_def elemAt_def trim_def isWhiteSpace_def splitStr_def
      setProp_def isArrayIndex_def
      Number_def isNaN_def stringToNumber_def strNumericLiteral_def
      nonDecimalIntegerLiteral_def strDecimalLiteral_def strUnsignedDecimalLiteral_def
      isDigit_def Let_def)

lemma parseCSV_short_row:
  "parseCSV (''a,b'' @ [LF] @ ''x'') = Inr [[(''a'', JString ''x''), (''b'', JUndefined)]]
   \<and> csvHeaders (''a,b'' @ [LF] @ ''x'') = [''a'', ''b'']
   \<and> (\<forall>fmt. serializeCSV fmt [''a'', ''b''] [[(''a'', JString ''x''), (''b'', JUndefined)]]
               = ''a,b'' @ [LF] @ ''x,'')"
  by (simp add: parseCSV_def parseRow_def csvHeaders_def serializeCSV_def cellText_def
      getProp_def coerceCell_def elemAt_def trim_def isWhiteSpace_def splitStr_def
      setProp_def isArrayIndex_def
      Number_def isNaN_def stringToNumber_def strNumericLiteral_def
      nonDecimalIntegerLiteral_def strDecimalLiteral_def strUnsignedDecimalLiteral_def
      isDigit_def Let_def)

text \<open>A column headed \<^verbatim>\<open>__proto__\<close> is dropped from every row, so it cannot be written
  back.\<close>

lemma parseCSV_proto_header:
  "parseCSV (''__proto__,a'' @ [LF] @ ''x,y'') = Inr [[(''a'', JString ''y'')]]"
  by (simp add: parseCSV_def parseRow_def coerceCell_def elemAt_def trim_def isWhiteSpace_def
      splitStr_def setProp_def isArrayIndex_def Number_def isNaN_def stringToNumber_def
      strNumericLiteral_def nonDecimalIntegerLiteral_def strDecimalLiteral_def
      strUnsignedDecimalLiteral_def isDigit_def Let_def)

text \<open>A column headed by an array index comes first among the keys of a row.\<close>

lemma parseCSV_index_header:
  "parseCSV (''b,1'' @ [LF] @ ''x,y'') = Inr [[(''1'', JString ''y''), (''b'', JString ''x'')]]"
  by (simp add: parseCSV_def parseRow_def coerceCell_def elemAt_def trim_def isWhiteSpace_def
      splitStr_def setProp_def isArrayIndex_def Number_def isNaN_def stringToNumber_def
      strNumericLiteral_def nonDecimalIntegerLiteral_def strDecimalLiteral_def
      strUnsignedDecimalLiteral_def isDigit_def digitsVal_def digitVal_def digitTable_def
      Let_def)

section \<open>Properties of searching and splitting text\<close>

text \<open>
  Where the first occurrence of a pattern lies, in terms of the text alone: after \<open>a\<close>
  when the pattern does not occur in \<open>a\<close> followed by all but the last character of the
  pattern, and nowhere when the pattern is no part of the text.
\<close>

lemma prefix_straddle:
  assumes "prefix pat (a @ pat @ b)" and "a \<noteq> []"
  shows "prefix pat (a @ butlast pat)"
proof (cases "pat = []")
  case True
  then show ?thesis by simp
next
  case False
  then have e: "a @ pat @ b = (a @ butlast pat) @ [last pat] @ b"
    by simp
  have p: "prefix pat ((a @ butlast pat) @ [last pat] @ b)"
    using assms(1) unfolding e .
  have q: "prefix (a @ butlast pat) ((a @ butlast pat) @ [last pat] @ b)"
    by (rule prefixI) simp
  have l: "length pat \<le> length (a @ butlast pat)"
    using assms(2) False by (cases a) simp_all
  show ?thesis
    by (rule prefix_length_prefix [OF p q l])
qed

lemma breakOn_first:
  assumes "pat \<noteq> []" and "\<not> sublist pat (a @ butlast pat)"
  shows "breakOn pat (a @ pat @ b) = Some (a, b)"
  using assms(2)
proof (induction a)
  case Nil
  from assms(1) obtain p ps where "pat = p # ps" by (cases pat) auto
  then show ?case by simp
next
  case (Cons x a)
  have n: "\<not> prefix pat (x # a @ pat @ b)"
  proof
    assume "prefix pat (x # a @ pat @ b)"
    then have "prefix pat ((x # a) @ pat @ b)" by simp
    then have "prefix pat ((x # a) @ butlast pat)"
      by (rule prefix_straddle) simp
    then have "sublist pat ((x # a) @ butlast pat)"
      by (rule prefix_imp_sublist)
    with Cons.prems show False by simp
  qed
  have "\<not> sublist pat (a @ butlast pat)"
  proof
    assume "sublist pat (a @ butlast pat)"
    then have "sublist pat (x # (a @ butlast pat))"
      by (simp add: sublist_Cons_right)
    with Cons.prems show False by simp
  qed
  from Cons.IH [OF this] n show ?case
    by simp
qed

lemma breakOn_none:
  assumes "pat \<noteq> []" and "\<not> sublist pat s"
  shows "breakOn pat s = None"
  using assms(2)
proof (induction s)
  case Nil
  from assms(1) show ?case by simp
next
  case (Cons c cs)
  have n: "\<not> prefix pat (c # cs)"
  proof
    assume "prefix pat (c # cs)"
    then have "sublist pat (c # cs)" by (rule prefix_imp_sublist)
    with Cons.prems show False by simp
  qed
  have "\<not> sublist pat cs"
  proof
    assume "sublist pat cs"
    then have "sublist pat (c # cs)" by (simp add: sublist_Cons_right)
    with Cons.prems show False by simp
  qed
  from Cons.IH [OF this] n show ?case
    by simp
qed

text \<open>
  Splitting at a separator whose first character does not occur again in it, such as
  \<^verbatim>\<open>\nTarget:\<close>: the pieces of a text that holds the separator are the pieces before it
  and the pieces after it; every piece is part of the text.
\<close>

lemma sep_straddle:
  assumes "c0 \<notin> set cs0" and "prefix (c0 # cs0) (r @ (c0 # cs0) @ x)" and "r \<noteq> []"
  shows "prefix (c0 # cs0) r"
proof (rule ccontr)
  assume n: "\<not> prefix (c0 # cs0) r"
  from assms(2) have "prefix (c0 # cs0) r
      \<or> (\<exists>us. c0 # cs0 = r @ us \<and> prefix us ((c0 # cs0) @ x))"
    by (simp only: prefix_append)
  with n obtain us where us: "c0 # cs0 = r @ us" and p: "prefix us ((c0 # cs0) @ x)"
    by blast
  from n us have "us \<noteq> []"
    by auto
  then obtain u us' where u: "us = u # us'"
    by (cases us) auto
  with p have "u = c0" by simp
  moreover from assms(3) obtain r0 r' where "r = r0 # r'"
    by (cases r) auto
  ultimately have "cs0 = r' @ c0 # us'"
    using us u by simp
  then have "c0 \<in> set cs0"
    by simp
  with assms(1) show False by simp
qed

lemma splitAcc_at_sep: "sep \<noteq> [] \<Longrightarrow> splitAcc sep acc (sep @ x) = acc # splitAcc sep [] x"
  by (cases sep) simp_all

lemma splitAcc_append:
  assumes "sep = c0 # cs0" and "c0 \<notin> set cs0"
  shows "splitAcc sep acc (g @ sep @ x) = splitAcc sep acc g @ splitAcc sep [] x"
  using assms
proof (induction sep acc g rule: splitAcc.induct)
  case (1 sep acc)
  then have ne: "sep \<noteq> []" by simp
  show ?case
    by (simp only: append_Nil splitAcc.simps(1) splitAcc_at_sep [OF ne] append.simps)
next
  case (2 sep acc c cs)
  from 2(3) have ne: "sep \<noteq> []" by simp
  show ?case
  proof (cases "prefix sep (c # cs)")
    case True
    then have l: "length sep \<le> length (c # cs)"
      by (rule prefix_length_le)
    from True have "prefix sep (c # cs @ sep @ x)"
      using prefix_prefix [of sep "c # cs" "sep @ x"] by simp
    moreover have "drop (length sep) (c # cs @ sep @ x)
        = drop (length sep) (c # cs) @ sep @ x"
    proof -
      have "drop (length sep) ((c # cs) @ (sep @ x))
          = drop (length sep) (c # cs) @ drop (length sep - length (c # cs)) (sep @ x)"
        by (rule drop_append)
      moreover from l have "length sep - length (c # cs) = 0"
        by simp
      ultimately show ?thesis
        by (simp del: drop_append)
    qed
    moreover note 2(1) [OF _ 2(3) 2(4)] True ne
    ultimately show ?thesis
      by simp
  next
    case False
    have "\<not> prefix sep (c # cs @ sep @ x)"
    proof
      assume "prefix sep (c # cs @ sep @ x)"
      then have "prefix (c0 # cs0) ((c # cs) @ (c0 # cs0) @ x)"
        by (simp only: 2(3) append_Cons)
      from sep_straddle [OF 2(4) this] 2(3) False show False
        by simp
    qed
    with 2(2) [OF _ 2(3) 2(4)] False show ?thesis
      by simp
  qed
qed

lemma splitAcc_acc:
  "\<exists>p ps. splitAcc sep [] s = p # ps \<and> splitAcc sep acc s = (acc @ p) # ps"
proof (induction s arbitrary: acc)
  case Nil
  show ?case by simp
next
  case (Cons c cs)
  show ?case
  proof (cases "sep \<noteq> [] \<and> prefix sep (c # cs)")
    case True
    then show ?thesis by simp
  next
    case False
    from Cons.IH [of "[c]"] obtain p ps
      where a: "splitAcc sep [c] cs = (c # p) # ps" and b: "splitAcc sep [] cs = p # ps"
      by auto
    from Cons.IH [of "acc @ [c]"] b have "splitAcc sep (acc @ [c]) cs = (acc @ c # p) # ps"
      by auto
    with a False show ?thesis
      by auto
  qed
qed

lemma splitAcc_pieces_sublist:
  "b \<in> set (splitAcc sep acc s) \<Longrightarrow> sublist b (acc @ s)"
proof (induction sep acc s rule: splitAcc.induct)
  case (1 sep acc)
  then show ?case by simp
next
  case (2 sep acc c cs)
  show ?case
  proof (cases "sep \<noteq> [] \<and> prefix sep (c # cs)")
    case True
    with 2(3) consider "b = acc" | "b \<in> set (splitAcc sep [] (drop (length sep) (c # cs)))"
      by auto
    then show ?thesis
    proof cases
      case 1
      then show ?thesis
        by (simp add: prefix_imp_sublist)
    next
      case 2
      with "2.IH"(1) True have "sublist b (drop (length sep) (c # cs))"
        by simp
      then have "sublist b (c # cs)"
        by (metis append_take_drop_id sublist_appendI sublist_order.order_trans
            suffix_drop suffix_imp_sublist)
      then show ?thesis
        by (metis sublist_appendI sublist_order.order_trans suffix_imp_sublist suffixI)
    qed
  next
    case False
    with 2(3) have "b \<in> set (splitAcc sep (acc @ [c]) cs)"
      by auto
    with "2.IH"(2) False show ?thesis
      by simp
  qed
qed

text \<open>What the feature lines found in a text are part of, and the counts of a text in
  which every count fits.\<close>

lemma countsFit_suffix: "countsFit s \<Longrightarrow> suffix r s \<Longrightarrow> countsFit r"
proof (induction s)
  case Nil
  then show ?case by simp
next
  case (Cons c cs)
  from Cons.prems(2) consider "r = c # cs" | "suffix r cs"
    by (auto simp: suffix_Cons)
  then show ?case
  proof cases
    case 1
    with Cons.prems(1) show ?thesis by simp
  next
    case 2
    from Cons.prems(1) have "countsFit cs"
      by (simp split: if_splits)
    from Cons.IH [OF this 2] show ?thesis .
  qed
qed

lemma lazyLine_suffix: "lazyLine s = Some (cap, rest) \<Longrightarrow> suffix rest s"
proof -
  assume a: "lazyLine s = Some (cap, rest)"
  then have "dropWhile (\<lambda>c. \<not> isLineTerminator c) s = LF # rest"
    by (auto simp: lazyLine_def split: list.splits if_splits)
  then have "suffix (LF # rest) s"
    by (metis suffix_dropWhile)
  then show ?thesis
    by (rule suffix_ConsD)
qed

lemma selectedAt_facts:
  assumes "selectedAt s = Some (ds, name, rest)"
  shows "prefix ''Selected '' s"
    and "ds = takeWhile isDigit (drop (length ''Selected '') s)"
    and "suffix rest s"
proof -
  define r1 where "r1 = dropWhile isDigit (drop (length ''Selected '') s)"
  from assms show "prefix ''Selected '' s"
    by (simp add: selectedAt_def split: if_splits)
  from assms show "ds = takeWhile isDigit (drop (length ''Selected '') s)"
    by (auto simp: selectedAt_def Let_def split: if_splits option.splits)
  from assms have "lazyLine (drop (length '' features for '') r1) = Some (name, rest)"
    by (auto simp: selectedAt_def Let_def r1_def split: if_splits option.splits)
  then have "suffix rest (drop (length '' features for '') r1)"
    by (rule lazyLine_suffix)
  also have "suffix \<dots> r1"
    by (rule suffix_drop)
  also have "suffix r1 (drop (length ''Selected '') s)"
    unfolding r1_def by (rule suffix_dropWhile)
  also have "suffix \<dots> s"
    by (rule suffix_drop)
  finally show "suffix rest s" .
qed

lemma countsFit_selectedMatches:
  "countsFit s \<Longrightarrow> list_all (\<lambda>(ds, name). digitsVal 10 ds < 2 ^ 32) (selectedMatches s)"
proof (induction s rule: selectedMatches.induct)
  case 1
  show ?case by simp
next
  case (2 c cs)
  show ?case
  proof (cases "selectedAt (c # cs)")
    case None
    from "2.prems" have "countsFit cs"
      by (simp split: if_splits)
    with "2.IH"(1) [OF None] None show ?thesis
      by simp
  next
    case (Some triple)
    obtain ds name rest where t: "triple = (ds, name, rest)"
      by (cases triple)
    note f = selectedAt_facts [OF Some [unfolded t]]
    from "2.prems" f(1) f(2) have d: "digitsVal 10 ds < 2 ^ 32"
      by (simp split: if_splits)
    from countsFit_suffix [OF "2.prems" f(3)] have "countsFit rest" .
    with "2.IH"(2) [OF Some [unfolded t] refl refl] d Some t show ?thesis
      by simp
  qed
qed

lemma targetMatch_sublist: "targetMatch b = Some t \<Longrightarrow> sublist (trim t) b"
proof -
  assume "targetMatch b = Some t"
  then have t: "t = takeWhile (\<lambda>c. \<not> isLineTerminator c) b"
    by (auto simp: targetMatch_def lazyLine_def split: list.splits if_splits)
  have "suffix (dropWhile isWhiteSpace t) t"
    by (rule suffix_dropWhile)
  moreover have "prefix (trim t) (dropWhile isWhiteSpace t)"
    unfolding trim_def
    by (metis prefix_def rev_append rev_rev_ident takeWhile_dropWhile_id)
  moreover have "prefix t b"
    unfolding t by (metis prefixI takeWhile_dropWhile_id)
  ultimately show ?thesis
    by (meson prefix_imp_sublist suffix_imp_sublist sublist_order.order_trans)
qed

section \<open>Properties of the metrics extractor\<close>

lemmas metricsEval =
  summaryMetrics_def finalSummaryAt_def summaryCapture_def splitStr_def processBlock_def
  targetMatch_def lazyLine_def isLineTerminator_def trim_def isWhiteSpace_def bestModelAt_def
  lazyLineOrEnd_def replaceFirst_def labelledNumberAt_def isDigitOrDot_def isDigit_def
  parseFloat_def strDecimalLiteral_def strUnsignedDecimalLiteral_def exponentPart_def
  pow10_def digitsVal_def digitVal_def digitTable_def truthyNum_def pow2_def
  emptyMetrics_def readProp_def Let_def power2_eq_square

lemmas objectEval = setProp_def objectPrototypeNames_def isArrayIndex_def

text \<open>
  What one summary block does to the metrics. A block without a first line leaves them
  as they are; a block for one target leaves the entries of every other target as they
  are; no block touches \<open>bestFeatures\<close>.
\<close>

lemma processBlock_no_target: "targetMatch block = None \<Longrightarrow> processBlock m block = m"
  by (simp add: processBlock_def)

lemma processBlock_other_target:
  assumes "targetMatch block = Some t" and "trim t \<noteq> k"
  shows "map_of (bestModels (processBlock m block)) k = map_of (bestModels m) k"
    and "map_of (r2Scores (processBlock m block)) k = map_of (r2Scores m) k"
    and "map_of (rmseScores (processBlock m block)) k = map_of (rmseScores m) k"
    and "map_of (mseScores (processBlock m block)) k = map_of (mseScores m) k"
  using assms
  by (simp_all add: processBlock_def Let_def map_of_setProp_other
      split: option.splits prop_read.splits)

lemma processBlock_bestFeatures: "bestFeatures (processBlock m block) = bestFeatures m"
  by (simp add: processBlock_def Let_def split: option.splits prop_read.splits)

text \<open>
  A field that a block lacks is left out of its own mapping only: without a match of
  \<^verbatim>\<open>R2: \<close> the block leaves \<open>r2Scores\<close> as it is, and a matched \<^verbatim>\<open>Best model: \<close> line is
  still stored in \<open>bestModels\<close> (for every target but \<^verbatim>\<open>__proto__\<close>, which no mapping
  stores).
\<close>

lemma processBlock_missing_r2:
  assumes "targetMatch block = Some t"
    and "searchFrom (labelledNumberAt ''R2: '') block = None"
    and "searchFrom bestModelAt block = Some name"
  shows "r2Scores (processBlock m block) = r2Scores m"
    and "trim t \<noteq> ''__proto__'' \<Longrightarrow>
         map_of (bestModels (processBlock m block)) (trim t)
           = Some (trim (replaceFirst ''Regressor'' [] name))"
  using assms
  by (simp_all add: processBlock_def Let_def map_of_setProp
      split: option.splits prop_read.splits)

text \<open>A matched \<^verbatim>\<open>RMSE\<close> value other than 0 gives the target its square in \<open>mseScores\<close>.\<close>

lemma processBlock_mse:
  assumes "targetMatch block = Some t" and "trim t \<noteq> ''__proto__''"
    and "searchFrom (labelledNumberAt ''RMSE: '') block = Some r"
    and "parseFloat r = Num x" and "x \<noteq> 0"
  shows "map_of (rmseScores (processBlock m block)) (trim t) = Some (Num x)"
    and "map_of (mseScores (processBlock m block)) (trim t) = Some (Num (x ^ 2))"
  using assms
  by (simp_all add: processBlock_def Let_def map_of_setProp readProp_def truthyNum_def
      pow2_def split: option.splits)

text \<open>
  A target named like a property of \<^verbatim>\<open>Object.prototype\<close> gets the square \<^verbatim>\<open>NaN\<close> without
  any \<^verbatim>\<open>RMSE\<close> line, since the test reads the inherited property.
\<close>

lemma processBlock_inherited:
  "processBlock emptyMetrics ('' constructor'' @ [LF] @ ''Best model: SVR'')
     = \<lparr>r2Scores = [], rmseScores = [], mseScores = [(''constructor'', NaN)],
        bestModels = [(''constructor'', ''SVR'')], bestFeatures = []\<rparr>"
  by (simp add: metricsEval objectEval)

text \<open>
  C3 at a summary whose \<^verbatim>\<open>RMSE\<close> line reads \<^verbatim>\<open>0.000\<close>. The value is matched and stored
  in \<open>rmseScores\<close>, and the test \<^verbatim>\<open>if (metrics.rmseScores[target])\<close> takes the number 0
  for a missing value: \<open>mseScores\<close> gets no entry for the target.
\<close>

theorem extractModelMetrics_zero_rmse:
  "extractModelMetrics
     (''=== Final Summary ==='' @ [LF, LF] @ ''Target: Ph'' @ [LF]
      @ ''Best model: Random Forest Regressor'' @ [LF] @ ''R2: 0.999'' @ [LF]
      @ ''RMSE: 0.000'')
   = Inr \<lparr>r2Scores = [(''Ph'', Num 0.999)], rmseScores = [(''Ph'', Num 0)], mseScores = [],
          bestModels = [(''Ph'', ''Random Forest'')], bestFeatures = []\<rparr>"
proof -
  have "selectedMatches
          (''=== Final Summary ==='' @ [LF, LF] @ ''Target: Ph'' @ [LF]
           @ ''Best model: Random Forest Regressor'' @ [LF] @ ''R2: 0.999'' @ [LF]
           @ ''RMSE: 0.000'') = []"
    by (simp add: selectedAt_def)
  moreover have "summaryMetrics
          (''=== Final Summary ==='' @ [LF, LF] @ ''Target: Ph'' @ [LF]
           @ ''Best model: Random Forest Regressor'' @ [LF] @ ''R2: 0.999'' @ [LF]
           @ ''RMSE: 0.000'')
        = \<lparr>r2Scores = [(''Ph'', Num 0.999)], rmseScores = [(''Ph'', Num 0)], mseScores = [],
           bestModels = [(''Ph'', ''Random Forest'')], bestFeatures = []\<rparr>"
    by (simp add: metricsEval objectEval)
  ultimately show ?thesis
    by (simp only: extractModelMetrics_def addFeatures.simps)
qed

text \<open>
  C4 at the text \<^verbatim>\<open>Selected 4294967296 features for Ph\n\<close>. The count is no array
  length, \<^verbatim>\<open>Array(4294967296)\<close> throws a \<^verbatim>\<open>RangeError\<close>, and the extractor throws it on
  instead of returning a metrics record.
\<close>

theorem extractModelMetrics_range_error:
  "extractModelMetrics (''Selected 4294967296 features for Ph'' @ [LF]) = Inl RangeError"
proof -
  have "selectedMatches (''Selected 4294967296 features for Ph'' @ [LF])
          = [(''4294967296'', ''Ph'')]"
    by (simp add: selectedAt_def lazyLine_def isLineTerminator_def isDigit_def)
  then show ?thesis
    by (simp add: extractModelMetrics_def digitsVal_def digitVal_def digitTable_def
        placeholderFeatures_def del: append.simps)
qed

lemma searchFrom_after:
  assumes "mk \<noteq> []"
  shows "searchFrom (\<lambda>s. if prefix mk s then Some (f (drop (length mk) s)) else None) s =
           map_option (\<lambda>(a, rest). f rest) (breakOn mk s)"
proof (induction s)
  case Nil
  from assms show ?case by simp
next
  case (Cons c cs)
  show ?case
  proof (cases "prefix mk (c # cs)")
    case True
    then show ?thesis by simp
  next
    case False
    with Cons.IH show ?thesis
      by (simp add: option.map_comp comp_def case_prod_unfold)
  qed
qed

lemma searchFrom_finalSummaryAt:
  "searchFrom finalSummaryAt s =
     map_option (\<lambda>(a, rest). summaryCapture rest) (breakOn ''=== Final Summary ==='' s)"
proof -
  have F: "finalSummaryAt =
          (\<lambda>s. if prefix ''=== Final Summary ==='' s
               then Some (summaryCapture (drop (length ''=== Final Summary ==='') s))
               else None)"
    by (rule ext) (simp only: finalSummaryAt_def)
  have ne: "''=== Final Summary ==='' \<noteq> []"
    by simp
  show ?thesis
    by (subst F) (rule searchFrom_after [OF ne, of summaryCapture s])
qed

lemma addFeatures_keeps_scores:
  "list_all (\<lambda>(ds, name). digitsVal 10 ds < 2 ^ 32) ms \<Longrightarrow>
   \<exists>m'. addFeatures m ms = Inr m' \<and> r2Scores m' = r2Scores m
        \<and> rmseScores m' = rmseScores m \<and> mseScores m' = mseScores m
        \<and> bestModels m' = bestModels m"
proof (induction ms arbitrary: m)
  case Nil
  show ?case by simp
next
  case (Cons p ms)
  obtain ds name where p: "p = (ds, name)" by (cases p)
  from Cons.prems p have ok: "digitsVal 10 ds < 2 ^ 32"
    and rest: "list_all (\<lambda>(ds, name). digitsVal 10 ds < 2 ^ 32) ms"
    by simp_all
  from ok obtain fs where fs: "placeholderFeatures (digitsVal 10 ds) = Inr fs"
    by (simp add: placeholderFeatures_def)
  from Cons.IH [OF rest, of "m\<lparr>bestFeatures := setProp (trim name) fs (bestFeatures m)\<rparr>"]
  show ?case
    by (simp add: p fs)
qed

text \<open>The extractor returns whenever every feature count of the output is an array
  length; the summary part of it cannot throw.\<close>

lemma extractModelMetrics_returns:
  "list_all (\<lambda>(ds, name). digitsVal 10 ds < 2 ^ 32) (selectedMatches output) \<Longrightarrow>
   \<exists>m. extractModelMetrics output = Inr m \<and> r2Scores m = r2Scores (summaryMetrics output)
       \<and> rmseScores m = rmseScores (summaryMetrics output)
       \<and> mseScores m = mseScores (summaryMetrics output)
       \<and> bestModels m = bestModels (summaryMetrics output)"
  unfolding extractModelMetrics_def by (rule addFeatures_keeps_scores)

lemma exampleBlock_processed:
  assumes "tail = [] \<or> prefix [LF] tail"
  shows "map_of (bestModels (processBlock m (exampleBlock @ tail))) ''Ph''
           = Some ''Random Forest''"
    and "map_of (r2Scores (processBlock m (exampleBlock @ tail))) ''Ph'' = Some (Num 0.87)"
    and "map_of (rmseScores (processBlock m (exampleBlock @ tail))) ''Ph'' = Some (Num 0.42)"
    and "map_of (mseScores (processBlock m (exampleBlock @ tail))) ''Ph'' = Some (Num 0.1764)"
proof -
  from assms consider "tail = []" | t where "tail = LF # t"
    by (auto simp: prefix_def)
  then have
    "map_of (bestModels (processBlock m (exampleBlock @ tail))) ''Ph'' = Some ''Random Forest''
     \<and> map_of (r2Scores (processBlock m (exampleBlock @ tail))) ''Ph'' = Some (Num 0.87)
     \<and> map_of (rmseScores (processBlock m (exampleBlock @ tail))) ''Ph'' = Some (Num 0.42)
     \<and> map_of (mseScores (processBlock m (exampleBlock @ tail))) ''Ph'' = Some (Num 0.1764)"
  proof cases
    case 1
    then show ?thesis
      by (simp add: exampleBlock_def metricsEval map_of_setProp)
  next
    case 2
    then show ?thesis
      by (simp add: exampleBlock_def metricsEval map_of_setProp)
  qed
  then show "map_of (bestModels (processBlock m (exampleBlock @ tail))) ''Ph''
               = Some ''Random Forest''"
    and "map_of (r2Scores (processBlock m (exampleBlock @ tail))) ''Ph'' = Some (Num 0.87)"
    and "map_of (rmseScores (processBlock m (exampleBlock @ tail))) ''Ph'' = Some (Num 0.42)"
    and "map_of (mseScores (processBlock m (exampleBlock @ tail))) ''Ph'' = Some (Num 0.1764)"
    by simp_all
qed

lemma foldl_processBlock_other_targets:
  assumes "list_all (\<lambda>b. case targetMatch b of None \<Rightarrow> True | Some t \<Rightarrow> trim t \<noteq> k) bs"
  shows "map_of (bestModels (foldl processBlock m bs)) k = map_of (bestModels m) k
         \<and> map_of (r2Scores (foldl processBlock m bs)) k = map_of (r2Scores m) k
         \<and> map_of (rmseScores (foldl processBlock m bs)) k = map_of (rmseScores m) k
         \<and> map_of (mseScores (foldl processBlock m bs)) k = map_of (mseScores m) k"
  using assms
proof (induction bs arbitrary: m)
  case Nil
  show ?case by simp
next
  case (Cons b bs)
  from Cons.prems have rest:
      "list_all (\<lambda>b. case targetMatch b of None \<Rightarrow> True | Some t \<Rightarrow> trim t \<noteq> k) bs"
    by simp
  have "map_of (bestModels (processBlock m b)) k = map_of (bestModels m) k
        \<and> map_of (r2Scores (processBlock m b)) k = map_of (r2Scores m) k
        \<and> map_of (rmseScores (processBlock m b)) k = map_of (rmseScores m) k
        \<and> map_of (mseScores (processBlock m b)) k = map_of (mseScores m) k"
  proof (cases "targetMatch b")
    case None
    then show ?thesis by (simp add: processBlock_no_target)
  next
    case (Some t)
    with Cons.prems have "trim t \<noteq> k" by simp
    with Some show ?thesis by (simp add: processBlock_other_target)
  qed
  with Cons.IH [OF rest, of "processBlock m b"] show ?case
    by simp
qed

text \<open>The blocks of a summary that holds the example block after any text \<open>gap\<close> and before
  any text \<open>rest\<close> on later lines.\<close>

lemma exampleBlock_split:
  "splitAcc (LF # ''Target:'') [] (exampleBlock @ rest)
     = splitAcc (LF # ''Target:'') exampleBlock rest"
  by (simp add: exampleBlock_def)

lemma summary_blocks:
  assumes "rest = [] \<or> prefix [LF] rest" and "\<not> sublist ''Ph'' rest"
  shows "\<exists>before tail after.
           splitStr (LF # ''Target:'') (gap @ (LF # ''Target:'') @ exampleBlock @ rest)
             = before @ [exampleBlock @ tail] @ after
           \<and> before \<noteq> [] \<and> (tail = [] \<or> prefix [LF] tail)
           \<and> list_all (\<lambda>b. case targetMatch b of None \<Rightarrow> True | Some t \<Rightarrow> trim t \<noteq> ''Ph'')
                after"
proof -
  let ?T = "LF # ''Target:''"
  obtain p ps where r: "splitAcc ?T [] rest = p # ps"
    and e: "splitAcc ?T exampleBlock rest = (exampleBlock @ p) # ps"
    using splitAcc_acc [of ?T rest exampleBlock] by blast
  have "LF \<notin> set ''Target:''"
    by simp
  from splitAcc_append [OF refl this, of "[]" gap "exampleBlock @ rest"]
  have s: "splitStr ?T (gap @ ?T @ exampleBlock @ rest)
             = splitAcc ?T [] gap @ [exampleBlock @ p] @ ps"
    by (simp only: splitStr_def exampleBlock_split e append.simps)
  have p: "p = [] \<or> prefix [LF] p"
  proof (cases rest)
    case Nil
    with r show ?thesis by simp
  next
    case (Cons c cs)
    with assms(1) have c: "c = LF" by simp
    show ?thesis
    proof (cases "prefix ?T rest")
      case True
      with r Cons show ?thesis by simp
    next
      case False
      with r Cons c have "splitAcc ?T [LF] cs = p # ps"
        by simp
      with splitAcc_acc [of ?T cs "[LF]"] show ?thesis
        by auto
    qed
  qed
  have "list_all (\<lambda>b. case targetMatch b of None \<Rightarrow> True | Some t \<Rightarrow> trim t \<noteq> ''Ph'') ps"
    unfolding list_all_iff
  proof
    fix b
    assume "b \<in> set ps"
    with r have "b \<in> set (splitAcc ?T [] rest)"
      by simp
    then have b: "sublist b rest"
      using splitAcc_pieces_sublist [of b ?T "[]" rest] by simp
    show "case targetMatch b of None \<Rightarrow> True | Some t \<Rightarrow> trim t \<noteq> ''Ph''"
    proof (cases "targetMatch b")
      case None
      then show ?thesis by simp
    next
      case (Some t)
      have "trim t \<noteq> ''Ph''"
      proof
        assume "trim t = ''Ph''"
        with targetMatch_sublist [OF Some] have "sublist ''Ph'' b"
          by simp
        from this b have "sublist ''Ph'' rest"
          by (rule sublist_order.order_trans)
        with assms(2) show False by simp
      qed
      with Some show ?thesis by simp
    qed
  qed
  with s p splitAcc_not_Nil [of ?T "[]" gap] show ?thesis
    by blast
qed

text \<open>
  C6, as the code has it. Let the output be some text \<open>pre\<close>, the first
  \<^verbatim>\<open>=== Final Summary ===\<close> marker, any text \<open>gap\<close>, the lines \<^verbatim>\<open>Target: Ph\<close>,
  \<^verbatim>\<open>Best model: Random Forest Regressor\<close>, \<^verbatim>\<open>R2: 0.870\<close>, \<^verbatim>\<open>RMSE: 0.420\<close>, any text
  \<open>rest\<close> on later lines in which \<^verbatim>\<open>Ph\<close> does not occur again, and then either the end
  or \<^verbatim>\<open>\n\nGenerating predictions\<close> with any text after it, that phrase not occurring
  earlier in the summary. Let the digits after every \<^verbatim>\<open>Selected \<close> of the output be a
  number below \<open>2 ^ 32\<close>. Then the extractor returns metrics with
  \<open>bestModels.Ph = "Random Forest"\<close>, \<open>r2Scores.Ph = 0.87\<close>, \<open>rmseScores.Ph = 0.42\<close> and
  \<open>mseScores.Ph = 0.1764\<close>, the exact square (the runtime's double differs from it by
  rounding only).
\<close>

theorem extractModelMetrics_example:
  assumes "output = pre @ ''=== Final Summary ==='' @ gap @ (LF # ''Target:'') @ exampleBlock
                      @ rest @ post"
    and "\<not> sublist ''=== Final Summary ==='' (pre @ butlast ''=== Final Summary ==='')"
    and "\<not> sublist ([LF, LF] @ ''Generating predictions'')
             (gap @ (LF # ''Target:'') @ exampleBlock @ rest
              @ butlast ([LF, LF] @ ''Generating predictions''))"
    and "post = [] \<or> prefix ([LF, LF] @ ''Generating predictions'') post"
    and "rest = [] \<or> prefix [LF] rest"
    and "\<not> sublist ''Ph'' rest"
    and "countsFit output"
  shows "\<exists>m. extractModelMetrics output = Inr m
           \<and> map_of (bestModels m) ''Ph'' = Some ''Random Forest''
           \<and> map_of (r2Scores m) ''Ph'' = Some (Num 0.87)
           \<and> map_of (rmseScores m) ''Ph'' = Some (Num 0.42)
           \<and> map_of (mseScores m) ''Ph'' = Some (Num 0.1764)"
proof -
  let ?M = "''=== Final Summary ===''"
  let ?G = "[LF, LF] @ ''Generating predictions''"
  let ?S = "gap @ (LF # ''Target:'') @ exampleBlock @ rest"
  have out: "output = pre @ ?M @ (?S @ post)"
    using assms(1) by simp
  have "breakOn ?M (pre @ ?M @ (?S @ post)) = Some (pre, ?S @ post)"
    by (rule breakOn_first [OF _ assms(2)]) simp
  then have f: "searchFrom finalSummaryAt output = Some (summaryCapture (?S @ post))"
    by (simp only: searchFrom_finalSummaryAt out option.map prod.case)
  have g: "\<not> sublist ?G (?S @ butlast ?G)"
    using assms(3) by simp
  have cap: "summaryCapture (?S @ post) = ?S"
  proof (cases "post = []")
    case True
    have "\<not> sublist ?G ?S"
    proof
      assume "sublist ?G ?S"
      then have "sublist ?G (?S @ butlast ?G)"
        by (rule sublist_order.order_trans [OF _ sublist_append_rightI])
      with g show False by simp
    qed
    then have "breakOn ?G ?S = None"
      by (rule breakOn_none [rotated]) simp
    with True show ?thesis
      by (simp only: summaryCapture_def append_Nil2 option.case)
  next
    case False
    with assms(4) obtain q where q: "post = ?G @ q"
      by (auto simp: prefix_def)
    have "breakOn ?G (?S @ ?G @ q) = Some (?S, q)"
      by (rule breakOn_first [OF _ g]) simp
    then show ?thesis
      by (simp only: summaryCapture_def q option.case prod.case)
  qed
  from summary_blocks [OF assms(5) assms(6), of gap]
  obtain before tail after
    where sp: "splitStr (LF # ''Target:'') ?S = before @ [exampleBlock @ tail] @ after"
      and ne: "before \<noteq> []" and tl: "tail = [] \<or> prefix [LF] tail"
      and la: "list_all (\<lambda>b. case targetMatch b of None \<Rightarrow> True | Some t \<Rightarrow> trim t \<noteq> ''Ph'')
                 after"
    by blast
  let ?m1 = "foldl processBlock emptyMetrics (tl before)"
  let ?m2 = "processBlock ?m1 (exampleBlock @ tail)"
  from ne have d: "drop 1 (before @ [exampleBlock @ tail] @ after)
                     = tl before @ [exampleBlock @ tail] @ after"
    by (cases before) simp_all
  have s: "summaryMetrics output = foldl processBlock ?m2 after"
    by (simp only: summaryMetrics_def f cap option.simps sp d foldl_append foldl.simps)
  from foldl_processBlock_other_targets [OF la, of ?m2]
       exampleBlock_processed [OF tl, of ?m1]
  have "map_of (bestModels (summaryMetrics output)) ''Ph'' = Some ''Random Forest''
        \<and> map_of (r2Scores (summaryMetrics output)) ''Ph'' = Some (Num 0.87)
        \<and> map_of (rmseScores (summaryMetrics output)) ''Ph'' = Some (Num 0.42)
        \<and> map_of (mseScores (summaryMetrics output)) ''Ph'' = Some (Num 0.1764)"
    by (simp only: s)
  with extractModelMetrics_returns [OF countsFit_selectedMatches [OF assms(7)]]
  show ?thesis
    by auto
qed

theorem extractModelMetrics_example_witness:
  "\<exists>m. extractModelMetrics
          ((''Selected 5 features for Ph'' @ [LF, LF]) @ ''=== Final Summary ==='' @ [LF]
           @ (LF # ''Target:'') @ exampleBlock
           @ ([LF] @ ''MAE: 0.336'' @ [LF, LF] @ ''Target: Moist'' @ [LF] @ ''Best model: SVR''
              @ [LF] @ ''R2: 0.920'' @ [LF] @ ''RMSE: 3.210'')
           @ ([LF, LF] @ ''Generating predictions for all samples...''))
        = Inr m
      \<and> map_of (bestModels m) ''Ph'' = Some ''Random Forest''
      \<and> map_of (r2Scores m) ''Ph'' = Some (Num 0.87)
      \<and> map_of (rmseScores m) ''Ph'' = Some (Num 0.42)
      \<and> map_of (mseScores m) ''Ph'' = Some (Num 0.1764)"
proof -
  let ?pre = "''Selected 5 features for Ph'' @ [LF, LF]"
  let ?rest = "[LF] @ ''MAE: 0.336'' @ [LF, LF] @ ''Target: Moist'' @ [LF] @ ''Best model: SVR''
               @ [LF] @ ''R2: 0.920'' @ [LF] @ ''RMSE: 3.210''"
  let ?post = "[LF, LF] @ ''Generating predictions for all samples...''"
  let ?output = "?pre @ ''=== Final Summary ==='' @ [LF] @ (LF # ''Target:'') @ exampleBlock
                 @ ?rest @ ?post"
  have a: "?output = ?pre @ ''=== Final Summary ==='' @ [LF] @ (LF # ''Target:'')
                       @ exampleBlock @ ?rest @ ?post"
    by (rule refl)
  have b: "\<not> sublist ''=== Final Summary ==='' (?pre @ butlast ''=== Final Summary ==='')"
    by (simp add: sublist_code)
  have c: "\<not> sublist ([LF, LF] @ ''Generating predictions'')
               ([LF] @ (LF # ''Target:'') @ exampleBlock @ ?rest
                @ butlast ([LF, LF] @ ''Generating predictions''))"
    by (simp add: sublist_code exampleBlock_def)
  have d: "?post = [] \<or> prefix ([LF, LF] @ ''Generating predictions'') ?post"
    by simp
  have e: "?rest = [] \<or> prefix [LF] ?rest"
    by simp
  have f: "\<not> sublist ''Ph'' ?rest"
    by (simp add: sublist_code)
  have g: "countsFit ?output"
    by (simp add: exampleBlock_def isDigit_def digitsVal_def digitVal_def digitTable_def)
  show ?thesis
    by (rule extractModelMetrics_example [OF a b c d e f g])
qed

text \<open>
  C6, as the specification states it, fails on a text that holds the four lines inside
  the summary and, after them, a second block for the same target: the later block
  overwrites the entries of \<^verbatim>\<open>Ph\<close>.
\<close>

theorem extractModelMetrics_example_counterexample:
  "extractModelMetrics
     (''=== Final Summary ==='' @ [LF, LF] @ ''Target: Ph'' @ [LF]
      @ ''Best model: Random Forest Regressor'' @ [LF] @ ''R2: 0.870'' @ [LF]
      @ ''RMSE: 0.420'' @ [LF, LF] @ ''Target: Ph'' @ [LF] @ ''Best model: SVR'' @ [LF]
      @ ''R2: 0.500'' @ [LF] @ ''RMSE: 0.300'')
   = Inr \<lparr>r2Scores = [(''Ph'', Num 0.5)], rmseScores = [(''Ph'', Num 0.3)],
          mseScores = [(''Ph'', Num 0.09)], bestModels = [(''Ph'', ''SVR'')],
          bestFeatures = []\<rparr>"
proof -
  have "selectedMatches
          (''=== Final Summary ==='' @ [LF, LF] @ ''Target: Ph'' @ [LF]
           @ ''Best model: Random Forest Regressor'' @ [LF] @ ''R2: 0.870'' @ [LF]
           @ ''RMSE: 0.420'' @ [LF, LF] @ ''Target: Ph'' @ [LF] @ ''Best model: SVR'' @ [LF]
           @ ''R2: 0.500'' @ [LF] @ ''RMSE: 0.300'') = []"
    by (simp add: selectedAt_def)
  moreover have "summaryMetrics
          (''=== Final Summary ==='' @ [LF, LF] @ ''Target: Ph'' @ [LF]
           @ ''Best model: Random Forest Regressor'' @ [LF] @ ''R2: 0.870'' @ [LF]
           @ ''RMSE: 0.420'' @ [LF, LF] @ ''Target: Ph'' @ [LF] @ ''Best model: SVR'' @ [LF]
           @ ''R2: 0.500'' @ [LF] @ ''RMSE: 0.300'')
        = \<lparr>r2Scores = [(''Ph'', Num 0.5)], rmseScores = [(''Ph'', Num 0.3)],
           mseScores = [(''Ph'', Num 0.09)], bestModels = [(''Ph'', ''SVR'')],
           bestFeatures = []\<rparr>"
    by (simp add: metricsEval objectEval)
  ultimately show ?thesis
    by (simp only: extractModelMetrics_def addFeatures.simps)
qed

section \<open>Properties of the simulated analysis\<close>

lemma synthesize_targetParams:
  "param \<in> set targetParams \<Longrightarrow> \<exists>x. synthesize param moistureLevel r = Some x"
  by (auto simp: targetParams_def synthesize_def Let_def)

lemma fillParam_other:
  "p \<noteq> param \<Longrightarrow>
   map_of (fst (fillParam rnd row moistureLevel st param)) p = map_of (fst st) p"
  by (cases st) (simp add: fillParam_def update_conv' split: option.splits)

lemma fillParam_same:
  assumes "synthesize param moistureLevel (rnd (snd st)) = Some y"
  shows "if getProp row param \<noteq> JUndefined
         then map_of (fst (fillParam rnd row moistureLevel st param)) param
                = Some (getProp row param)
         else (\<exists>x. map_of (fst (fillParam rnd row moistureLevel st param)) param
                = Some (JNumber (Num x)))"
  using assms by (cases st) (simp add: fillParam_def update_conv')

lemma foldl_fillParam:
  assumes "set ps \<subseteq> set targetParams" and "p \<in> set ps"
  shows "if getProp row p \<noteq> JUndefined
         then map_of (fst (foldl (fillParam rnd row moistureLevel) st ps)) p
                = Some (getProp row p)
         else (\<exists>x. map_of (fst (foldl (fillParam rnd row moistureLevel) st ps)) p
                = Some (JNumber (Num x)))"
  using assms
proof (induction ps rule: rev_induct)
  case Nil
  then show ?case by simp
next
  case (snoc q qs)
  let ?st = "foldl (fillParam rnd row moistureLevel) st qs"
  show ?case
  proof (cases "p = q")
    case True
    from snoc.prems(1) have "q \<in> set targetParams" by simp
    then obtain y where y: "synthesize q moistureLevel (rnd (snd ?st)) = Some y"
      using synthesize_targetParams by blast
    from fillParam_same
           [where param = q and st = "?st" and rnd = rnd and row = row
              and moistureLevel = moistureLevel, OF y]
         True
    show ?thesis
      by simp
  next
    case False
    with snoc.prems have "p \<in> set qs" and "set qs \<subseteq> set targetParams"
      by simp_all
    with snoc.IH have
      "if getProp row p \<noteq> JUndefined
       then map_of (fst ?st) p = Some (getProp row p)
       else (\<exists>x. map_of (fst ?st) p = Some (JNumber (Num x)))"
      by simp
    with False show ?thesis
      by (simp add: fillParam_other)
  qed
qed

lemma predictionOf_carries:
  "carriesTargets row (fst (predictionOf rnd i index row soilId))"
  unfolding carriesTargets_def predictionOf_def Let_def
  using foldl_fillParam [of targetParams _ row rnd] by blast

lemma predictionsFrom_carries:
  "length ids = length rows \<Longrightarrow>
   list_all2 carriesTargets rows (predictionsFrom rnd i index rows ids)"
proof (induction rows arbitrary: ids i index)
  case Nil
  then show ?case by simp
next
  case (Cons row rows)
  then obtain soilId ids' where ids: "ids = soilId # ids'" and len: "length ids' = length rows"
    by (cases ids) simp_all
  obtain prediction i' where p: "predictionOf rnd i index row soilId = (prediction, i')"
    by (cases "predictionOf rnd i index row soilId")
  from predictionOf_carries [of row rnd i index soilId] p
  have "carriesTargets row prediction" by simp
  with Cons.IH [OF len, of i' "Suc index"] show ?case
    by (simp add: ids p)
qed

lemma soilIds_length: "length (fst (soilIds rnd i rows)) = length rows"
  by (induction rows arbitrary: i) (simp_all add: case_prod_unfold Let_def)

text \<open>
  C7. Every prediction of \<open>simulateModelAnalysis\<close> carries the six target fields: there
  is one prediction per input row, in order, and each target is a key of it, with the
  row's value where the row has one and with a simulated number otherwise.
\<close>

theorem simulateModelAnalysis_carries_targets:
  "list_all2 carriesTargets data (simulateModelAnalysis data rnd)"
proof -
  obtain ids i where s: "soilIds rnd 0 data = (ids, i)"
    by (cases "soilIds rnd 0 data")
  with soilIds_length [of rnd 0 data] have "length ids = length data"
    by simp
  from predictionsFrom_carries [OF this] show ?thesis
    by (simp add: simulateModelAnalysis_def s)
qed

theorem simulateModelAnalysis_carries_targets_witness:
  "list_all2 carriesTargets [[(''Soil_ID'', JString ''S1''), (''Ph'', JNumber (Num 7))]]
     (simulateModelAnalysis [[(''Soil_ID'', JString ''S1''), (''Ph'', JNumber (Num 7))]]
        (\<lambda>i. 1 / 2))
   \<and> simulateModelAnalysis [[(''Soil_ID'', JString ''S1''), (''Ph'', JNumber (Num 7))]]
       (\<lambda>i. 1 / 2)
     = [[(''Soil_ID'', JString ''S1''), (''Moisture_Level'', JString ''0ml''),
         (''Ph'', JNumber (Num 7)), (''Moist'', JNumber (Num 15)),
         (''EC (u/10 gram)'', JNumber (Num 800)), (''Nitro (mg/10 g)'', JNumber (Num 18)),
         (''Posh Nitro (mg/10 g)'', JNumber (Num 12)),
         (''Pota Nitro (mg/10 g)'', JNumber (Num 25))]]"
proof -
  have "simulateModelAnalysis [[(''Soil_ID'', JString ''S1''), (''Ph'', JNumber (Num 7))]]
       (\<lambda>i. 1 / 2)
     = [[(''Soil_ID'', JString ''S1''), (''Moisture_Level'', JString ''0ml''),
         (''Ph'', JNumber (Num 7)), (''Moist'', JNumber (Num 15)),
         (''EC (u/10 gram)'', JNumber (Num 800)), (''Nitro (mg/10 g)'', JNumber (Num 18)),
         (''Posh Nitro (mg/10 g)'', JNumber (Num 12)),
         (''Pota Nitro (mg/10 g)'', JNumber (Num 25))]]"
    by (simp add: simulateModelAnalysis_def soilIdOf_def truthy_def getProp_def
        includesStr_def predictionOf_def moistureLevelOf_def fillParam_def synthesize_def
        targetParams_def Let_def)
  with simulateModelAnalysis_carries_targets
         [of "[[(''Soil_ID'', JString ''S1''), (''Ph'', JNumber (Num 7))]]" "\<lambda>i. 1 / 2"]
  show ?thesis by simp
qed

section \<open>Properties of the single-sample predictor\<close>

text \<open>
  C8. On the empty input mapping the quality score is 0, every target is its baseline
  plus the random term alone, and for every stream of draws from 0 up to 1 the six
  targets lie in the stated intervals.
\<close>

theorem simulateSinglePrediction_empty:
  assumes "validRandom rnd"
  shows "qualityScore [] = 0
         \<and> Ph (simulateSinglePrediction [] rnd) = 6.5 + (rnd 0 * 0.5 - 0.25)
         \<and> Moist (simulateSinglePrediction [] rnd) = 35 + (rnd 1 * 10 - 5)
         \<and> EC (simulateSinglePrediction [] rnd) = 800 + (rnd 2 * 200 - 100)
         \<and> Nitro (simulateSinglePrediction [] rnd) = 18 + (rnd 3 * 5 - 2.5)
         \<and> Posh_Nitro (simulateSinglePrediction [] rnd) = 12 + (rnd 4 * 4 - 2)
         \<and> Pota_Nitro (simulateSinglePrediction [] rnd) = 25 + (rnd 5 * 7.5 - 3.75)
         \<and> 6.25 \<le> Ph (simulateSinglePrediction [] rnd)
         \<and> Ph (simulateSinglePrediction [] rnd) \<le> 6.75
         \<and> 30 \<le> Moist (simulateSinglePrediction [] rnd)
         \<and> Moist (simulateSinglePrediction [] rnd) \<le> 40
         \<and> 700 \<le> EC (simulateSinglePrediction [] rnd)
         \<and> EC (simulateSinglePrediction [] rnd) \<le> 900
         \<and> 15.5 \<le> Nitro (simulateSinglePrediction [] rnd)
         \<and> Nitro (simulateSinglePrediction [] rnd) \<le> 20.5
         \<and> 10 \<le> Posh_Nitro (simulateSinglePrediction [] rnd)
         \<and> Posh_Nitro (simulateSinglePrediction [] rnd) \<le> 14
         \<and> 21.25 \<le> Pota_Nitro (simulateSinglePrediction [] rnd)
         \<and> Pota_Nitro (simulateSinglePrediction [] rnd) \<le> 28.75"
proof -
  have r: "0 \<le> rnd i \<and> rnd i < 1" for i
    using assms by (simp add: validRandom_def)
  have q: "qualityScore [] = 0"
    by (simp add: qualityScore_def wavelengths_def)
  show ?thesis
    using r [of 0] r [of 1] r [of 2] r [of 3] r [of 4] r [of 5]
    by (simp add: simulateSinglePrediction_def q)
qed

theorem simulateSinglePrediction_empty_witness:
  "validRandom (\<lambda>i. 1 / 2)
   \<and> qualityScore [] = 0
   \<and> Ph (simulateSinglePrediction [] (\<lambda>i. 1 / 2)) = 6.5
   \<and> Moist (simulateSinglePrediction [] (\<lambda>i. 1 / 2)) = 35
   \<and> 700 \<le> EC (simulateSinglePrediction [] (\<lambda>i. 1 / 2))
   \<and> Pota_Nitro (simulateSinglePrediction [] (\<lambda>i. 1 / 2)) \<le> 28.75"
proof -
  have v: "validRandom (\<lambda>i. 1 / 2)"
    by (simp add: validRandom_def)
  show ?thesis
    using v simulateSinglePrediction_empty [OF v] by simp
qed

end
